theory Spec2Isabelle
  imports Complex_Main "HOL-Library.Monad_Syntax"
begin

section \<open>Data model (types.ts)\<close>

text \<open>
  JavaScript numbers are IEEE doubles. The main model takes them as reals, so its
  statements are statements of exact arithmetic (no rounding, no NaN). Where a claim turns
  on rounding, the code path is modelled a second time with every operation rounded to the
  nearest double; those definitions carry the suffix \<open>_double\<close>.
\<close>

datatype AppState = TREE | EXPLODED | FOCUS

datatype Pos2 = Pos2 (pos_x: real) (pos_y: real)

record HandGesture =
  isFist :: bool
  isOpenPalm :: bool
  isPinching :: bool
  handPosition :: Pos2
  rotation :: real

section \<open>Application state machine (App.tsx, handleGestureUpdate)\<close>

text \<open>
  The two pieces of React state that the callback writes: what React holds when the
  callback runs, and what each \<open>setGesture\<close> and \<open>setAppState\<close> overwrites.
\<close>

record App =
  appState :: AppState
  gesture :: HandGesture

definition setGesture :: "HandGesture \<Rightarrow> App \<Rightarrow> App" where
  "setGesture g s = s\<lparr>gesture := g\<rparr>"

definition setAppState :: "AppState \<Rightarrow> App \<Rightarrow> App" where
  "setAppState m s = s\<lparr>appState := m\<rparr>"

text \<open>
  \<open>useCallback(\<dots>, [appState])\<close> makes one callback per rendered mode, and the tests in
  its body read the \<open>appState\<close> of the render that made it. That value is the first
  argument, \<open>captured\<close>; it is not the state \<open>app\<close> that the calls write.
\<close>

definition handleGestureUpdate :: "AppState \<Rightarrow> App \<Rightarrow> HandGesture \<Rightarrow> App" where
  "handleGestureUpdate captured app newGesture =
    (let s0 = setGesture newGesture app
     in if isFist newGesture then setAppState TREE s0
        else if isOpenPalm newGesture then
          (let s1 = (if captured \<noteq> EXPLODED \<and> captured \<noteq> FOCUS
                     then setAppState EXPLODED s0 else s0);
               s2 = (if captured = FOCUS then setAppState EXPLODED s1 else s1)
           in s2)
        else if isPinching newGesture then
          (if captured = EXPLODED then setAppState FOCUS s0 else s0)
        else s0)"

text \<open>
  HandManager calls whatever callback \<open>onGestureUpdateRef.current\<close> holds, and replaces it
  only in an effect that runs after App has rendered again. A session is the React state
  together with the mode captured by the callback in the ref. Two things happen to it: a
  camera result arrives and the callback in the ref is called with its signal
  (\<open>Results\<close>), or React renders App with the state it holds and the effect stores the
  new callback (\<open>Commit\<close>). The initial state is that of the two \<open>useState\<close> calls.
\<close>

record Session =
  react :: App
  onGestureUpdateRef :: AppState

datatype Event = Results HandGesture | Commit

fun step :: "Session \<Rightarrow> Event \<Rightarrow> Session" where
  "step s (Results g) = s\<lparr>react := handleGestureUpdate (onGestureUpdateRef s) (react s) g\<rparr>"
| "step s Commit = s\<lparr>onGestureUpdateRef := appState (react s)\<rparr>"

definition run :: "Session \<Rightarrow> Event list \<Rightarrow> Session" where
  "run s events = foldl step s events"

definition initial :: Session where
  "initial =
     \<lparr>react = \<lparr>appState = TREE,
                gesture = \<lparr>isFist = False, isOpenPalm = False, isPinching = False,
                             handPosition = Pos2 0.5 0.5, rotation = 0\<rparr>\<rparr>,
      onGestureUpdateRef = TREE\<rparr>"

definition open_palm_signal :: HandGesture where
  "open_palm_signal = \<lparr>isFist = False, isOpenPalm = True, isPinching = False,
                         handPosition = Pos2 0.5 0.5, rotation = 0.5\<rparr>"

definition pinch_signal :: HandGesture where
  "pinch_signal = \<lparr>isFist = False, isOpenPalm = False, isPinching = True,
                     handPosition = Pos2 0.5 0.5, rotation = 0.5\<rparr>"

text \<open>The transition rule as the specification words it (priority order 1 to 4).\<close>

definition reference_transition :: "AppState \<Rightarrow> HandGesture \<Rightarrow> AppState" where
  "reference_transition mode g =
    (if isFist g then TREE
     else if isOpenPalm g then EXPLODED
     else if isPinching g \<and> mode = EXPLODED then FOCUS
     else mode)"

section \<open>Gesture classifier (HandManager, hands.onResults)\<close>

datatype Landmark = Landmark (lm_x: real) (lm_y: real)

text \<open>
  \<open>landmarks[idx]\<close> on a JavaScript array is \<open>undefined\<close> out of range, and reading
  \<open>.x\<close> or \<open>.y\<close> of \<open>undefined\<close> throws a TypeError. A computation that throws is
  \<open>None\<close>; TypeError is the only exception the handler can raise.
\<close>

definition at_index :: "'a list \<Rightarrow> nat \<Rightarrow> 'a option" where
  "at_index xs idx = (if idx < length xs then Some (xs ! idx) else None)"

definition get_x :: "Landmark option \<Rightarrow> real option" where
  "get_x p = map_option lm_x p"

definition get_y :: "Landmark option \<Rightarrow> real option" where
  "get_y p = map_option lm_y p"

definition tips :: "nat list" where
  "tips = [8, 12, 16, 20]"

fun tips_forEach :: "Landmark list \<Rightarrow> Landmark option \<Rightarrow> nat list \<Rightarrow> real \<Rightarrow> real option" where
  "tips_forEach landmarks wrist [] avgDist = Some avgDist"
| "tips_forEach landmarks wrist (idx # rest) avgDist =
    do {
      lx \<leftarrow> get_x (at_index landmarks idx);
      wx \<leftarrow> get_x wrist;
      let dx = lx - wx;
      ly \<leftarrow> get_y (at_index landmarks idx);
      wy \<leftarrow> get_y wrist;
      let dy = ly - wy;
      tips_forEach landmarks wrist rest (avgDist + sqrt (dx * dx + dy * dy))
    }"

definition neutral :: HandGesture where
  "neutral = \<lparr>isFist = False, isOpenPalm = False, isPinching = False,
              handPosition = Pos2 0.5 0.5, rotation = 0\<rparr>"

text \<open>
  The argument is \<open>results.multiHandLandmarks\<close>: absent (\<open>None\<close>) or the list of detected
  hands, each a list of landmarks. The result is the \<open>gestureData\<close> handed to the callback.
\<close>

definition onResults :: "Landmark list list option \<Rightarrow> HandGesture option" where
  "onResults multiHandLandmarks =
    (case multiHandLandmarks of
       None \<Rightarrow> Some neutral
     | Some [] \<Rightarrow> Some neutral
     | Some (landmarks # others) \<Rightarrow>
        do {
          let wrist = at_index landmarks 0;
          total \<leftarrow> tips_forEach landmarks wrist tips 0;
          let avgDist = total / real (length tips);
          let fist = (avgDist < 0.25);
          let openPalm = (avgDist > 0.4);
          let thumbTip = at_index landmarks 4;
          let indexTip = at_index landmarks 8;
          tx \<leftarrow> get_x thumbTip;
          ix \<leftarrow> get_x indexTip;
          ty \<leftarrow> get_y thumbTip;
          iy \<leftarrow> get_y indexTip;
          let pinchDist = sqrt ((tx - ix) ^ 2 + (ty - iy) ^ 2);
          let pinching = (pinchDist < 0.05);
          h9x \<leftarrow> get_x (at_index landmarks 9);
          h9y \<leftarrow> get_y (at_index landmarks 9);
          let handPos = Pos2 (1 - h9x) h9y;
          rot \<leftarrow> get_x (at_index landmarks 0);
          Some \<lparr>isFist = fist, isOpenPalm = openPalm, isPinching = pinching,
                 handPosition = handPos, rotation = rot\<rparr>
        })"

text \<open>The quantities the specification names, written from its words.\<close>

definition euclid2 :: "Landmark \<Rightarrow> Landmark \<Rightarrow> real" where
  "euclid2 p q = sqrt ((lm_x p - lm_x q) ^ 2 + (lm_y p - lm_y q) ^ 2)"

definition mean_tip_distance :: "Landmark list \<Rightarrow> real" where
  "mean_tip_distance lms =
     (euclid2 (lms ! 0) (lms ! 8) + euclid2 (lms ! 0) (lms ! 12)
      + euclid2 (lms ! 0) (lms ! 16) + euclid2 (lms ! 0) (lms ! 20)) / 4"

text \<open>
  A sample hand of 21 landmarks: everything at the origin but the four fingertips, which
  are 0.3 away from the wrist.
\<close>

definition half_open_hand :: "Landmark list" where
  "half_open_hand = (replicate 21 (Landmark 0 0))
     [8 := Landmark 0.3 0, 12 := Landmark 0.3 0, 16 := Landmark 0.3 0, 20 := Landmark 0.3 0]"

section \<open>Double arithmetic\<close>

text \<open>
  \<open>fl x\<close> is the double nearest to the real \<open>x\<close>, a tie going to the even significand:
  the doubles of the binade \<open>2^e \<le> |x| < 2^(e+1)\<close> are the multiples of \<open>2^(e-52)\<close>. The
  exponent range is not modelled (no overflow, no subnormals), so \<open>fl\<close> is the rounding
  of the code for magnitudes between \<open>2^-1022\<close> and \<open>2^1023\<close>, and for 0. Every arithmetic
  operation of JavaScript returns \<open>fl\<close> of its exact result.
\<close>

definition round_ties_even :: "real \<Rightarrow> int" where
  "round_ties_even q =
     (let f = \<lfloor>q\<rfloor>
      in if q - of_int f < 1 / 2 then f
         else if 1 / 2 < q - of_int f then f + 1
         else if even f then f else f + 1)"

definition ulp :: "real \<Rightarrow> real" where
  "ulp x = 2 powr (of_int \<lfloor>log 2 \<bar>x\<bar>\<rfloor> - 52)"

definition fl :: "real \<Rightarrow> real" where
  "fl x = (if x = 0 then 0 else of_int (round_ties_even (x / ulp x)) * ulp x)"

subsection \<open>The handler in double arithmetic\<close>

text \<open>
  \<open>hands.onResults\<close> once more, with the rounding of every subtraction, product, sum,
  square root, power and division, and with the three thresholds as the doubles their
  literals denote. \<open>Math.sqrt\<close> and \<open>Math.pow(\<dots>, 2)\<close> are taken as correctly rounded.
\<close>

fun tips_forEach_double ::
  "Landmark list \<Rightarrow> Landmark option \<Rightarrow> nat list \<Rightarrow> real \<Rightarrow> real option" where
  "tips_forEach_double landmarks wrist [] avgDist = Some avgDist"
| "tips_forEach_double landmarks wrist (idx # rest) avgDist =
    do {
      lx \<leftarrow> get_x (at_index landmarks idx);
      wx \<leftarrow> get_x wrist;
      let dx = fl (lx - wx);
      ly \<leftarrow> get_y (at_index landmarks idx);
      wy \<leftarrow> get_y wrist;
      let dy = fl (ly - wy);
      tips_forEach_double landmarks wrist rest
        (fl (avgDist + fl (sqrt (fl (fl (dx * dx) + fl (dy * dy))))))
    }"

definition onResults_double :: "Landmark list list option \<Rightarrow> HandGesture option" where
  "onResults_double multiHandLandmarks =
    (case multiHandLandmarks of
       None \<Rightarrow> Some neutral
     | Some [] \<Rightarrow> Some neutral
     | Some (landmarks # others) \<Rightarrow>
        do {
          let wrist = at_index landmarks 0;
          total \<leftarrow> tips_forEach_double landmarks wrist tips 0;
          let avgDist = fl (total / real (length tips));
          let fist = (avgDist < fl 0.25);
          let openPalm = (avgDist > fl 0.4);
          let thumbTip = at_index landmarks 4;
          let indexTip = at_index landmarks 8;
          tx \<leftarrow> get_x thumbTip;
          ix \<leftarrow> get_x indexTip;
          ty \<leftarrow> get_y thumbTip;
          iy \<leftarrow> get_y indexTip;
          let pinchDist = fl (sqrt (fl (fl ((fl (tx - ix)) ^ 2) + fl ((fl (ty - iy)) ^ 2))));
          let pinching = (pinchDist < fl 0.05);
          h9x \<leftarrow> get_x (at_index landmarks 9);
          h9y \<leftarrow> get_y (at_index landmarks 9);
          let handPos = Pos2 (fl (1 - h9x)) h9y;
          rot \<leftarrow> get_x (at_index landmarks 0);
          Some \<lparr>isFist = fist, isOpenPalm = openPalm, isPinching = pinching,
                 handPosition = handPos, rotation = rot\<rparr>
        })"

text \<open>
  A hand of 21 landmarks whose coordinates are doubles in the unit square: everything at
  the origin but the four fingertips, at distances \<open>1/2\<close>, \<open>1/4\<close>, \<open>1/4 - 2^-28\<close> and
  \<open>2^-28 - 2^-54\<close> from the wrist. The distances add up to \<open>1 - 2^-54\<close>.
\<close>

definition rounding_hand :: "Landmark list" where
  "rounding_hand = (replicate 21 (Landmark 0 0))
     [8 := Landmark (1 / 2) 0,
      12 := Landmark (1 / 4) 0,
      16 := Landmark (1 / 4 - 1 / 2 ^ 28) 0,
      20 := Landmark (1 / 2 ^ 28 - 1 / 2 ^ 54) 0]"

section \<open>Layout generator (utils/math.ts, generateTreeLayout)\<close>

datatype Vector3 = Vector3 (vx: real) (vy: real) (vz: real)

datatype Euler = Euler real real real

datatype Color = GREEN | GOLD | RED | WHITE

datatype ParticleType = SPHERE | CUBE | PHOTO

text \<open>
  \<open>ParticleData\<close> of types.ts. The type parameter is what stands for a \<open>THREE.Vector3\<close>:
  the vector itself where only values matter (the generator's output), an address into
  the store of vector objects where aliasing matters (the animator).
\<close>

record 'v ParticleData =
  id_p :: nat
  position :: 'v
  targetPosition :: 'v
  treePosition :: 'v
  explodedPosition :: 'v
  rotation_p :: Euler
  scale_p :: real
  color :: Color
  type_p :: ParticleType
  textureUrl :: "string option"

definition height :: real where "height = 18"
definition bottomRadius :: real where "bottomRadius = 7"
definition goldenAngle :: real where "goldenAngle = pi * (3 - sqrt 5)"
definition explodeRadius :: real where "explodeRadius = 25"

text \<open>
  \<open>Math.random()\<close> is a sequence of draws \<open>rnd 0, rnd 1, \<dots>\<close>; the generator threads
  the number \<open>k\<close> of draws made so far. One loop iteration draws, in the order of
  evaluation of the source: the radius jitter, theta, the argument of acos, the category
  value (non-photo items only), the two Euler angles, and the scale (non-photo items only).
  \<open>Math.acos\<close> is \<open>arccos\<close>; its argument lies in \<open>[-1, 1)\<close> for draws in \<open>[0, 1)\<close>.
\<close>

definition make_particle ::
  "nat \<Rightarrow> string list \<Rightarrow> (nat \<Rightarrow> real) \<Rightarrow> nat \<Rightarrow> nat \<Rightarrow> Vector3 ParticleData \<times> nat" where
  "make_particle count photoUrls rnd i k =
    (let isPhoto = (i < length photoUrls);
         y = (real i / real count) * height;
         inverseY = 1 - (y / height);
         angle = real i * goldenAngle;
         radius = bottomRadius * inverseY + (rnd k * 0.5);
         x = cos angle * radius;
         z = sin angle * radius;
         treePos = Vector3 x (y - height / 2) z;
         theta = rnd (k + 1) * pi * 2;
         phi = arccos ((rnd (k + 2) * 2) - 1);
         exX = explodeRadius * sin phi * cos theta;
         exY = explodeRadius * sin phi * sin theta;
         exZ = explodeRadius * cos phi;
         explodedPos = Vector3 exX exY exZ;
         (ty, col, k1) =
           (if isPhoto then (PHOTO, WHITE, k + 3)
            else (let rand = rnd (k + 3)
                  in if rand > 0.9 then (CUBE, GOLD, k + 4)
                     else if rand > 0.7 then (SPHERE, RED, k + 4)
                     else if rand > 0.6 then (SPHERE, GOLD, k + 4)
                     else (SPHERE, GREEN, k + 4)));
         rot = Euler (rnd k1 * pi) (rnd (k1 + 1) * pi) 0;
         (sc, k2) = (if isPhoto then (1.5, k1 + 2) else (rnd (k1 + 2) * 0.3 + 0.1, k1 + 3))
     in (\<lparr>id_p = i,
          position = explodedPos,
          targetPosition = treePos,
          treePosition = treePos,
          explodedPosition = explodedPos,
          rotation_p = rot,
          scale_p = sc,
          color = col,
          type_p = ty,
          textureUrl = (if isPhoto then Some (photoUrls ! i) else None)\<rparr>, k2))"

function generateTreeLayout_loop ::
  "nat \<Rightarrow> string list \<Rightarrow> (nat \<Rightarrow> real) \<Rightarrow> nat \<Rightarrow> nat \<Rightarrow> Vector3 ParticleData list
   \<Rightarrow> Vector3 ParticleData list" where
  "generateTreeLayout_loop count photoUrls rnd i k particles =
    (if i < count then
       (case make_particle count photoUrls rnd i k of
          (p, k') \<Rightarrow> generateTreeLayout_loop count photoUrls rnd (i + 1) k' (particles @ [p]))
     else particles)"
  by pat_completeness auto
termination
  by (relation "measure (\<lambda>(count, photoUrls, rnd, i, k, particles). count - i)") auto

declare generateTreeLayout_loop.simps [simp del]

definition generateTreeLayout ::
  "nat \<Rightarrow> string list \<Rightarrow> (nat \<Rightarrow> real) \<Rightarrow> Vector3 ParticleData list" where
  "generateTreeLayout count photoUrls rnd = generateTreeLayout_loop count photoUrls rnd 0 0 []"

definition magnitude :: "Vector3 \<Rightarrow> real" where
  "magnitude v = sqrt (vx v * vx v + vy v * vy v + vz v * vz v)"

section \<open>Per-frame animator (ChristmasScene: ParticleGroup, SinglePhoto)\<close>

subsection \<open>Vector arithmetic of three.js\<close>

text \<open>
  \<open>THREE.Vector3\<close> belongs to the three.js library, not to the repository. Its methods are
  modelled by what the library computes, componentwise: \<open>a.add(b)\<close> adds \<open>b\<close> to \<open>a\<close>,
  \<open>a.multiplyScalar(s)\<close> scales \<open>a\<close>, and \<open>a.lerp(v, alpha)\<close> moves \<open>a\<close> by
  \<open>(v - a) * alpha\<close>, with no clamping of \<open>alpha\<close>.
\<close>

definition add3 :: "Vector3 \<Rightarrow> Vector3 \<Rightarrow> Vector3" where
  "add3 a b = Vector3 (vx a + vx b) (vy a + vy b) (vz a + vz b)"

definition multiplyScalar3 :: "Vector3 \<Rightarrow> real \<Rightarrow> Vector3" where
  "multiplyScalar3 a s = Vector3 (vx a * s) (vy a * s) (vz a * s)"

definition lerp3 :: "Vector3 \<Rightarrow> Vector3 \<Rightarrow> real \<Rightarrow> Vector3" where
  "lerp3 this v alpha =
     Vector3 (vx this + (vx v - vx this) * alpha)
             (vy this + (vy v - vy this) * alpha)
             (vz this + (vz v - vz this) * alpha)"

definition distanceTo :: "Vector3 \<Rightarrow> Vector3 \<Rightarrow> real" where
  "distanceTo a b = sqrt ((vx a - vx b)\<^sup>2 + (vy a - vy b)\<^sup>2 + (vz a - vz b)\<^sup>2)"

subsection \<open>The store of vector objects\<close>

text \<open>
  Vectors are mutable objects, and the frame callbacks alias them: a \<open>let target = p.v\<close>
  holds the same object as the particle. Objects live in a store from addresses to vector
  values; \<open>fresh\<close> is the next unused address. Each method below mutates the object at its
  first address and leaves every other object alone.
\<close>

record Store =
  cells :: "nat \<Rightarrow> Vector3"
  fresh :: nat

definition v_new :: "Vector3 \<Rightarrow> Store \<Rightarrow> nat \<times> Store" where
  "v_new v h = (fresh h, h\<lparr>cells := (cells h)(fresh h := v), fresh := Suc (fresh h)\<rparr>)"

definition v_clone :: "nat \<Rightarrow> Store \<Rightarrow> nat \<times> Store" where
  "v_clone a h = v_new (cells h a) h"

definition v_add :: "nat \<Rightarrow> nat \<Rightarrow> Store \<Rightarrow> Store" where
  "v_add a b h = h\<lparr>cells := (cells h)(a := add3 (cells h a) (cells h b))\<rparr>"

definition v_multiplyScalar :: "nat \<Rightarrow> real \<Rightarrow> Store \<Rightarrow> Store" where
  "v_multiplyScalar a s h = h\<lparr>cells := (cells h)(a := multiplyScalar3 (cells h a) s)\<rparr>"

definition v_lerp :: "nat \<Rightarrow> nat \<Rightarrow> real \<Rightarrow> Store \<Rightarrow> Store" where
  "v_lerp a b alpha h = h\<lparr>cells := (cells h)(a := lerp3 (cells h a) (cells h b) alpha)\<rparr>"

definition v_copy :: "nat \<Rightarrow> nat \<Rightarrow> Store \<Rightarrow> Store" where
  "v_copy a b h = h\<lparr>cells := (cells h)(a := cells h b)\<rparr>"

definition v_setScalar :: "nat \<Rightarrow> real \<Rightarrow> Store \<Rightarrow> Store" where
  "v_setScalar a s h = h\<lparr>cells := (cells h)(a := Vector3 s s s)\<rparr>"

text \<open>
  The part of a \<open>THREE.Object3D\<close> (the shared \<open>dummy\<close>, a photo's mesh) that is made of
  vectors. Its orientation and matrix are objects of other classes; the statements that
  only touch those (\<open>rotation.x +=\<close>, \<open>lookAt\<close>, \<open>updateMatrix\<close>, \<open>setMatrixAt\<close>,
  \<open>setColorAt\<close>) write no vector and are left out.
\<close>

record Object3D =
  obj_position :: nat
  obj_scale :: nat

subsection \<open>ParticleGroup.useFrame\<close>

definition ParticleGroup_target ::
  "AppState \<Rightarrow> real \<Rightarrow> nat ParticleData \<Rightarrow> Store \<Rightarrow> nat \<times> Store" where
  "ParticleGroup_target mode elapsedTime particle h =
    (if mode = TREE then (treePosition particle, h)
     else if mode = EXPLODED then
       (let target = explodedPosition particle;
            (c, h1) = v_clone target h;
            (n, h2) = v_new (Vector3 (sin (elapsedTime + real (id_p particle)) * 0.5)
                                     (cos (elapsedTime * 0.8 + real (id_p particle)) * 0.5)
                                     0) h1
        in (c, v_add c n h2))
     else
       (let (c, h1) = v_clone (explodedPosition particle) h
        in (c, v_multiplyScalar c 1.5 h1)))"

text \<open>
  One iteration of the loop over \<open>data\<close>. \<open>currentPositions.current[i]\<close> is \<open>undefined\<close>
  out of range, and calling \<open>lerp\<close> on it throws (\<open>None\<close>).
\<close>

definition ParticleGroup_step ::
  "AppState \<Rightarrow> real \<Rightarrow> real \<Rightarrow> Object3D \<Rightarrow> nat list \<Rightarrow> nat \<Rightarrow> nat ParticleData \<Rightarrow> Store
   \<Rightarrow> Store option" where
  "ParticleGroup_step mode elapsedTime delta dummy currentPositions i particle h =
    (case ParticleGroup_target mode elapsedTime particle h of
       (target, h1) \<Rightarrow>
         (case at_index currentPositions i of
            None \<Rightarrow> None
          | Some cur \<Rightarrow>
              (let h2 = v_lerp cur target (delta * 3) h1;
                   h3 = v_copy (obj_position dummy) cur h2;
                   h4 = v_setScalar (obj_scale dummy) (scale_p particle) h3
               in Some h4)))"

fun ParticleGroup_loop ::
  "AppState \<Rightarrow> real \<Rightarrow> real \<Rightarrow> Object3D \<Rightarrow> nat list \<Rightarrow> nat \<Rightarrow> nat ParticleData list \<Rightarrow> Store
   \<Rightarrow> Store option" where
  "ParticleGroup_loop mode elapsedTime delta dummy currentPositions i [] h = Some h"
| "ParticleGroup_loop mode elapsedTime delta dummy currentPositions i (particle # data) h =
    (case ParticleGroup_step mode elapsedTime delta dummy currentPositions i particle h of
       None \<Rightarrow> None
     | Some h' \<Rightarrow>
         ParticleGroup_loop mode elapsedTime delta dummy currentPositions (i + 1) data h')"

text \<open>\<open>meshPresent\<close> is \<open>meshRef.current\<close> being set; without it the callback returns at once.\<close>

definition ParticleGroup_useFrame ::
  "bool \<Rightarrow> AppState \<Rightarrow> real \<Rightarrow> real \<Rightarrow> Object3D \<Rightarrow> nat list \<Rightarrow> nat ParticleData list \<Rightarrow> Store
   \<Rightarrow> Store option" where
  "ParticleGroup_useFrame meshPresent mode elapsedTime delta dummy currentPositions data h =
    (if \<not> meshPresent then Some h
     else ParticleGroup_loop mode elapsedTime delta dummy currentPositions 0 data h)"

subsection \<open>SinglePhoto.useFrame\<close>

definition SinglePhoto_target ::
  "AppState \<Rightarrow> real \<Rightarrow> nat ParticleData \<Rightarrow> Store \<Rightarrow> nat \<times> real \<times> Store" where
  "SinglePhoto_target mode elapsedTime particle h =
    (if mode = EXPLODED then
       (let target = explodedPosition particle;
            (n, h1) = v_new (Vector3 0 (sin (elapsedTime + real (id_p particle)) * 0.5) 0) h
        in (target, 1.5, v_add target n h1))
     else if mode = FOCUS then
       (if id_p particle mod 5 = 0 then
          (let (t, h1) = v_new (Vector3 0 0 15) h in (t, 6, h1))
        else
          (let (c, h1) = v_clone (explodedPosition particle) h
           in (c, 1.0, v_multiplyScalar c 1.5 h1)))
     else (treePosition particle, 1.5, h))"

definition SinglePhoto_useFrame ::
  "Object3D option \<Rightarrow> AppState \<Rightarrow> real \<Rightarrow> real \<Rightarrow> nat ParticleData \<Rightarrow> Store \<Rightarrow> Store" where
  "SinglePhoto_useFrame meshRef mode elapsedTime delta particle h =
    (case meshRef of
       None \<Rightarrow> h
     | Some mesh \<Rightarrow>
         (case SinglePhoto_target mode elapsedTime particle h of
            (target, sc, h1) \<Rightarrow>
              (let h2 = v_lerp (obj_position mesh) target (delta * 3) h1;
                   (s, h3) = v_new (Vector3 sc sc sc) h2;
                   h4 = v_lerp (obj_scale mesh) s (delta * 2) h3
               in h4)))"

subsection \<open>Frame after frame\<close>

text \<open>
  The vector a frame steers toward, read off the code's own choice of target: the value of
  the target object once the mode's branch has run (and, for a photo, the scale chosen
  with it).
\<close>

definition ParticleGroup_goal :: "AppState \<Rightarrow> real \<Rightarrow> nat ParticleData \<Rightarrow> Store \<Rightarrow> Vector3" where
  "ParticleGroup_goal mode elapsedTime particle h =
    (case ParticleGroup_target mode elapsedTime particle h of
       (target, h1) \<Rightarrow> cells h1 target)"

definition SinglePhoto_goal ::
  "AppState \<Rightarrow> real \<Rightarrow> nat ParticleData \<Rightarrow> Store \<Rightarrow> Vector3 \<times> Vector3" where
  "SinglePhoto_goal mode elapsedTime particle h =
    (case SinglePhoto_target mode elapsedTime particle h of
       (target, sc, h1) \<Rightarrow> (cells h1 target, Vector3 sc sc sc))"

text \<open>
  The renderer calls the frame callback again and again: frame \<open>n\<close> runs at elapsed
  time \<open>ts n\<close> on the store the frames before it have left, with the same \<open>delta\<close>.
\<close>

primrec SinglePhoto_frames ::
  "Object3D \<Rightarrow> AppState \<Rightarrow> (nat \<Rightarrow> real) \<Rightarrow> real \<Rightarrow> nat ParticleData \<Rightarrow> Store \<Rightarrow> nat \<Rightarrow> Store"
  where
  "SinglePhoto_frames mesh mode ts delta particle h 0 = h"
| "SinglePhoto_frames mesh mode ts delta particle h (Suc n) =
     SinglePhoto_useFrame (Some mesh) mode (ts n) delta particle
       (SinglePhoto_frames mesh mode ts delta particle h n)"

primrec ParticleGroup_frames ::
  "AppState \<Rightarrow> (nat \<Rightarrow> real) \<Rightarrow> real \<Rightarrow> Object3D \<Rightarrow> nat list \<Rightarrow> nat ParticleData list \<Rightarrow> Store
   \<Rightarrow> nat \<Rightarrow> Store option" where
  "ParticleGroup_frames mode ts delta dummy currentPositions data h 0 = Some h"
| "ParticleGroup_frames mode ts delta dummy currentPositions data h (Suc n) =
    (case ParticleGroup_frames mode ts delta dummy currentPositions data h n of
       None \<Rightarrow> None
     | Some h' \<Rightarrow>
         ParticleGroup_useFrame True mode (ts n) delta dummy currentPositions data h')"

text \<open>
  How the objects of a mounted scene lie in the store. A photo's mesh owns its position
  and its scale (react-three-fiber copies the \<open>position\<close> prop into the mesh), and they are
  not the particle's tree or exploded position. A group has one current position per
  particle, cloned at mount, and its own dummy; none of them is a particle's vector.
\<close>

definition photo_scene :: "Object3D \<Rightarrow> nat ParticleData \<Rightarrow> Store \<Rightarrow> bool" where
  "photo_scene mesh particle h \<longleftrightarrow>
     distinct [obj_position mesh, obj_scale mesh, treePosition particle,
               explodedPosition particle]
     \<and> list_all (\<lambda>a. a < fresh h)
          [obj_position mesh, obj_scale mesh, treePosition particle,
           explodedPosition particle]"

definition group_scene :: "Object3D \<Rightarrow> nat list \<Rightarrow> nat ParticleData list \<Rightarrow> Store \<Rightarrow> bool" where
  "group_scene dummy currentPositions data h \<longleftrightarrow>
     length currentPositions = length data
     \<and> distinct (obj_position dummy # obj_scale dummy # currentPositions)
     \<and> list_all (\<lambda>a. a < fresh h) (obj_position dummy # obj_scale dummy # currentPositions)
     \<and> list_all (\<lambda>p. treePosition p < fresh h \<and> explodedPosition p < fresh h
                      \<and> treePosition p \<notin> set (obj_position dummy # obj_scale dummy
                                                   # currentPositions)
                      \<and> explodedPosition p \<notin> set (obj_position dummy # obj_scale dummy
                                                       # currentPositions)) data"

text \<open>
  What the specification says of a sequence of positions \<open>pos\<close>, a target and a
  smoothing factor \<open>a = deltaTime * smoothingRate\<close>: each step adds
  \<open>(target - pos) * min 1 a\<close> and lands between the old position and the target; from a
  start that is not the target the distance to the target decreases strictly with every
  step and the target is never reached; and the distance tends to zero.
\<close>

definition approaches_target :: "(nat \<Rightarrow> Vector3) \<Rightarrow> Vector3 \<Rightarrow> real \<Rightarrow> bool" where
  "approaches_target pos target a \<longleftrightarrow>
     (\<forall>n. pos (Suc n)
            = Vector3 (vx (pos n) + (vx target - vx (pos n)) * min 1 a)
                      (vy (pos n) + (vy target - vy (pos n)) * min 1 a)
                      (vz (pos n) + (vz target - vz (pos n)) * min 1 a)
          \<and> min (vx (pos n)) (vx target) \<le> vx (pos (Suc n))
          \<and> vx (pos (Suc n)) \<le> max (vx (pos n)) (vx target)
          \<and> min (vy (pos n)) (vy target) \<le> vy (pos (Suc n))
          \<and> vy (pos (Suc n)) \<le> max (vy (pos n)) (vy target)
          \<and> min (vz (pos n)) (vz target) \<le> vz (pos (Suc n))
          \<and> vz (pos (Suc n)) \<le> max (vz (pos n)) (vz target))
     \<and> (pos 0 \<noteq> target \<longrightarrow>
          (\<forall>n. distanceTo (pos (Suc n)) target < distanceTo (pos n) target
               \<and> pos n \<noteq> target))
     \<and> (\<lambda>n. distanceTo (pos n) target) \<longlonglongrightarrow> 0"

subsection \<open>The photo frame in double arithmetic\<close>

text \<open>
  \<open>SinglePhoto.useFrame\<close> once more, with the rounding of every operation:
  \<open>this.x += (v.x - this.x) * alpha\<close> rounds the difference, the product and the sum.
  \<open>Math.sin\<close> is only required to approximate the sine, so it is a parameter \<open>msin\<close>.
\<close>

definition add3_double :: "Vector3 \<Rightarrow> Vector3 \<Rightarrow> Vector3" where
  "add3_double a b = Vector3 (fl (vx a + vx b)) (fl (vy a + vy b)) (fl (vz a + vz b))"

definition multiplyScalar3_double :: "Vector3 \<Rightarrow> real \<Rightarrow> Vector3" where
  "multiplyScalar3_double a s = Vector3 (fl (vx a * s)) (fl (vy a * s)) (fl (vz a * s))"

definition lerp3_double :: "Vector3 \<Rightarrow> Vector3 \<Rightarrow> real \<Rightarrow> Vector3" where
  "lerp3_double this v alpha =
     Vector3 (fl (vx this + fl (fl (vx v - vx this) * alpha)))
             (fl (vy this + fl (fl (vy v - vy this) * alpha)))
             (fl (vz this + fl (fl (vz v - vz this) * alpha)))"

definition v_add_double :: "nat \<Rightarrow> nat \<Rightarrow> Store \<Rightarrow> Store" where
  "v_add_double a b h = h\<lparr>cells := (cells h)(a := add3_double (cells h a) (cells h b))\<rparr>"

definition v_multiplyScalar_double :: "nat \<Rightarrow> real \<Rightarrow> Store \<Rightarrow> Store" where
  "v_multiplyScalar_double a s h =
     h\<lparr>cells := (cells h)(a := multiplyScalar3_double (cells h a) s)\<rparr>"

definition v_lerp_double :: "nat \<Rightarrow> nat \<Rightarrow> real \<Rightarrow> Store \<Rightarrow> Store" where
  "v_lerp_double a b alpha h =
     h\<lparr>cells := (cells h)(a := lerp3_double (cells h a) (cells h b) alpha)\<rparr>"

definition SinglePhoto_target_double ::
  "(real \<Rightarrow> real) \<Rightarrow> AppState \<Rightarrow> real \<Rightarrow> nat ParticleData \<Rightarrow> Store \<Rightarrow> nat \<times> real \<times> Store"
  where
  "SinglePhoto_target_double msin mode elapsedTime particle h =
    (if mode = EXPLODED then
       (let target = explodedPosition particle;
            (n, h1) = v_new (Vector3 0
                        (fl (msin (fl (elapsedTime + real (id_p particle))) * 0.5)) 0) h
        in (target, 1.5, v_add_double target n h1))
     else if mode = FOCUS then
       (if id_p particle mod 5 = 0 then
          (let (t, h1) = v_new (Vector3 0 0 15) h in (t, 6, h1))
        else
          (let (c, h1) = v_clone (explodedPosition particle) h
           in (c, 1.0, v_multiplyScalar_double c 1.5 h1)))
     else (treePosition particle, 1.5, h))"

definition SinglePhoto_useFrame_double ::
  "(real \<Rightarrow> real) \<Rightarrow> Object3D option \<Rightarrow> AppState \<Rightarrow> real \<Rightarrow> real \<Rightarrow> nat ParticleData \<Rightarrow> Store
   \<Rightarrow> Store" where
  "SinglePhoto_useFrame_double msin meshRef mode elapsedTime delta particle h =
    (case meshRef of
       None \<Rightarrow> h
     | Some mesh \<Rightarrow>
         (case SinglePhoto_target_double msin mode elapsedTime particle h of
            (target, sc, h1) \<Rightarrow>
              (let h2 = v_lerp_double (obj_position mesh) target (fl (delta * 3)) h1;
                   (s, h3) = v_new (Vector3 sc sc sc) h2;
                   h4 = v_lerp_double (obj_scale mesh) s (fl (delta * 2)) h3
               in h4)))"

primrec SinglePhoto_frames_double ::
  "(real \<Rightarrow> real) \<Rightarrow> Object3D \<Rightarrow> AppState \<Rightarrow> (nat \<Rightarrow> real) \<Rightarrow> real \<Rightarrow> nat ParticleData \<Rightarrow> Store
   \<Rightarrow> nat \<Rightarrow> Store" where
  "SinglePhoto_frames_double msin mesh mode ts delta particle h 0 = h"
| "SinglePhoto_frames_double msin mesh mode ts delta particle h (Suc n) =
     SinglePhoto_useFrame_double msin (Some mesh) mode (ts n) delta particle
       (SinglePhoto_frames_double msin mesh mode ts delta particle h n)"

subsection \<open>A concrete photo scene\<close>

text \<open>
  The first photo of the scene (photo ids start at 10000) with its four vectors at
  addresses 0 to 3, its mesh with position and scale at addresses 4 and 5, and a store
  holding them: tree position (1, 0, 0), exploded position (25, 0, 0), mesh at the origin.
\<close>

definition example_photo :: "nat ParticleData" where
  "example_photo = \<lparr>id_p = 10000, position = 0, targetPosition = 1, treePosition = 2,
     explodedPosition = 3, rotation_p = Euler 0 0 0, scale_p = 1.5, color = WHITE,
     type_p = PHOTO, textureUrl = Some ''a''\<rparr>"

definition example_mesh :: Object3D where
  "example_mesh = \<lparr>obj_position = 4, obj_scale = 5\<rparr>"

definition example_store :: Store where
  "example_store = \<lparr>cells = (\<lambda>a. if a = 2 then Vector3 1 0 0
                            else if a = 3 then Vector3 25 0 0
                            else if a = 5 then Vector3 1 1 1
                            else Vector3 0 0 0),
             fresh = 6\<rparr>"

text \<open>
  A group of one ornament (id 0, scale 1/4) with the same tree and exploded positions,
  its current position at address 6 (the origin), and the group's dummy at addresses 4
  and 5.
\<close>

definition example_ornament :: "nat ParticleData" where
  "example_ornament = \<lparr>id_p = 0, position = 0, targetPosition = 1, treePosition = 2,
     explodedPosition = 3, rotation_p = Euler 0 0 0, scale_p = 1 / 4, color = GREEN,
     type_p = SPHERE, textureUrl = None\<rparr>"

definition example_dummy :: Object3D where
  "example_dummy = \<lparr>obj_position = 4, obj_scale = 5\<rparr>"

definition example_group_store :: Store where
  "example_group_store = example_store\<lparr>fresh := 7\<rparr>"

section \<open>State machine: results\<close>

text \<open>
  C1 (as amended). A signal handled by the callback in the ref gives: TREE for a closed
  hand; otherwise, for an open palm, EXPLODED unless the callback captured EXPLODED (then
  the mode stays); otherwise FOCUS for a pinch when the callback captured EXPLODED;
  otherwise the mode stays. When the callback captured the mode React holds, and so always
  after a commit, this is the reference rule applied to the current mode.
\<close>

theorem step_follows_captured_mode:
  "appState (react (step s (Results g)))
     = (if isFist g then TREE
        else if isOpenPalm g then
          (if onGestureUpdateRef s = EXPLODED then appState (react s) else EXPLODED)
        else if isPinching g \<and> onGestureUpdateRef s = EXPLODED then FOCUS
        else appState (react s))
   \<and> (onGestureUpdateRef s = appState (react s) \<longrightarrow>
        appState (react (step s (Results g))) = reference_transition (appState (react s)) g)
   \<and> appState (react (step (step s Commit) (Results g)))
        = reference_transition (appState (react s)) g"
  by (cases "onGestureUpdateRef s"; cases "appState (react s)")
     (simp_all add: handleGestureUpdate_def reference_transition_def setAppState_def
        setGesture_def Let_def)

text \<open>
  Witness for C1 (as amended): the first signal of a session, an open palm, handled by the
  callback of the first render.
\<close>

theorem step_follows_captured_mode_witness:
  "onGestureUpdateRef initial = appState (react initial)
   \<and> appState (react (step initial (Results open_palm_signal))) = EXPLODED
   \<and> reference_transition (appState (react initial)) open_palm_signal = EXPLODED"
  using step_follows_captured_mode [of initial open_palm_signal]
  by (simp add: initial_def open_palm_signal_def reference_transition_def)

text \<open>
  Counterexample to C1 as stated: an open palm and then a pinch arrive before React has
  rendered again, so both are handled by the callback that captured TREE. The session ends
  in EXPLODED, where the reference rule, applied once per signal, gives FOCUS; with a
  commit between the two signals the code gives FOCUS as well.
\<close>

theorem stale_callback_ignores_pinch:
  "appState (react (run initial [Results open_palm_signal, Results pinch_signal])) = EXPLODED
   \<and> reference_transition (reference_transition TREE open_palm_signal) pinch_signal = FOCUS
   \<and> appState (react (run initial [Results open_palm_signal, Commit, Results pinch_signal]))
       = FOCUS"
  by (simp add: run_def initial_def open_palm_signal_def pinch_signal_def
      handleGestureUpdate_def reference_transition_def setAppState_def setGesture_def)

section \<open>Gesture classifier: results\<close>

text \<open>
  C6. With no hand landmarks in the input (the field absent, or an empty list of hands) the
  handler produces exactly the neutral signal: the three flags false, pointer (0.5, 0.5),
  rotation 0.
\<close>

theorem onResults_no_hand_neutral:
  "onResults None = Some neutral \<and> onResults (Some []) = Some neutral
   \<and> isFist neutral = False \<and> isOpenPalm neutral = False \<and> isPinching neutral = False
   \<and> handPosition neutral = Pos2 0.5 0.5 \<and> rotation neutral = 0"
  by (simp add: onResults_def neutral_def)

section \<open>Gesture classifier: thresholds and short landmark lists\<close>

text \<open>
  The \<open>forEach\<close> over the tips adds one wrist-to-tip distance per index that exists, and
  throws at the first index that does not.
\<close>

lemma at_index_in: "idx < length xs \<Longrightarrow> at_index xs idx = Some (xs ! idx)"
  by (simp add: at_index_def)

lemma at_index_out: "\<not> idx < length xs \<Longrightarrow> at_index xs idx = None"
  by (simp add: at_index_def)

lemma tips_forEach_missing:
  "\<not> idx < length landmarks \<Longrightarrow> tips_forEach landmarks wrist (idx # rest) a = None"
  by (simp add: at_index_def get_x_def)

lemma tips_forEach_step:
  assumes "idx < length landmarks"
  shows "tips_forEach landmarks (at_index landmarks 0) (idx # rest) a
         = tips_forEach landmarks (at_index landmarks 0) rest
             (a + euclid2 (landmarks ! 0) (landmarks ! idx))"
proof -
  have "sqrt ((lm_x (landmarks ! idx) - lm_x (landmarks ! 0)) * (lm_x (landmarks ! idx) - lm_x (landmarks ! 0))
            + (lm_y (landmarks ! idx) - lm_y (landmarks ! 0)) * (lm_y (landmarks ! idx) - lm_y (landmarks ! 0)))
        = euclid2 (landmarks ! 0) (landmarks ! idx)"
    by (simp add: euclid2_def power2_eq_square power2_commute [of "lm_x (landmarks ! 0)"]
        power2_commute [of "lm_y (landmarks ! 0)"] flip: power2_eq_square)
  moreover from assms have "0 < length landmarks" by auto
  ultimately show ?thesis
    using assms by (simp add: at_index_def get_x_def get_y_def)
qed

lemma tips_forEach_short:
  "length landmarks < 21 \<Longrightarrow> tips_forEach landmarks (at_index landmarks 0) tips a = None"
  unfolding tips_def
  by (cases "landmarks = []"; cases "8 < length landmarks"; cases "12 < length landmarks";
      cases "16 < length landmarks")
     (simp_all add: tips_forEach_step tips_forEach_missing del: tips_forEach.simps(2))

lemma tips_forEach_full:
  "20 < length landmarks \<Longrightarrow>
   tips_forEach landmarks (at_index landmarks 0) tips 0 = Some (4 * mean_tip_distance landmarks)"
  unfolding tips_def
  by (simp add: tips_forEach_step mean_tip_distance_def del: tips_forEach.simps(2))

lemma tips_forEach_double_missing:
  "\<exists>idx \<in> set idxs. \<not> idx < length landmarks
   \<Longrightarrow> tips_forEach_double landmarks wrist idxs a = None"
  by (induction idxs arbitrary: a)
     (auto simp: at_index_def get_x_def get_y_def Let_def split: Option.bind_splits)

lemma tips_forEach_double_present:
  "\<forall>idx \<in> set idxs. idx < length landmarks
   \<Longrightarrow> \<exists>t. tips_forEach_double landmarks (Some w) idxs a = Some t"
  by (induction idxs arbitrary: a)
     (auto simp: at_index_def get_x_def get_y_def Let_def)

lemma onResults_double_short:
  "length lms < 21 \<Longrightarrow> onResults_double (Some (lms # hs)) = None"
proof -
  assume "length lms < 21"
  then have "\<exists>idx \<in> set tips. \<not> idx < length lms" by (simp add: tips_def)
  then have "tips_forEach_double lms (at_index lms 0) tips 0 = None"
    by (rule tips_forEach_double_missing)
  then show ?thesis by (simp add: onResults_double_def)
qed

lemma onResults_double_full:
  assumes "length lms = 21"
  shows "\<exists>g. onResults_double (Some (lms # hs)) = Some g
           \<and> rotation g = lm_x (lms ! 0) \<and> pos_y (handPosition g) = lm_y (lms ! 9)"
proof -
  have "\<forall>idx \<in> set tips. idx < length lms" using assms by (simp add: tips_def)
  then obtain t where "tips_forEach_double lms (Some (lms ! 0)) tips 0 = Some t"
    using tips_forEach_double_present by blast
  then show ?thesis
    using assms by (simp add: onResults_double_def at_index_def get_x_def get_y_def Let_def)
qed

lemma onResults_full:
  assumes "length lms = 21"
  shows "\<exists>g. onResults (Some (lms # hs)) = Some g
           \<and> rotation g = lm_x (lms ! 0) \<and> pos_y (handPosition g) = lm_y (lms ! 9)"
proof -
  have "tips_forEach lms (Some (lms ! 0)) tips 0 = Some (4 * mean_tip_distance lms)"
    using assms tips_forEach_full [of lms] by (simp add: at_index_in)
  then show ?thesis
    using assms by (simp add: onResults_def at_index_in get_x_def get_y_def)
qed

text \<open>
  C4 (as amended). A first hand with fewer than 21 landmarks makes the handler fail: it
  reads a coordinate of the missing landmark 20 (or of an earlier missing one) and throws,
  so no signal is produced. A first hand with 21 landmarks never makes it fail, whatever
  the range of the coordinates: the handler returns the signal it computes from them,
  whose rotation is the wrist's x and whose pointer has the y of landmark 9. Both hold in
  exact and in double arithmetic.
\<close>

theorem onResults_malformed:
  "(length lms < 21 \<longrightarrow>
      onResults (Some (lms # hs)) = None \<and> onResults_double (Some (lms # hs)) = None)
   \<and> (length lms = 21 \<longrightarrow>
        (\<exists>g. onResults (Some (lms # hs)) = Some g
            \<and> rotation g = lm_x (lms ! 0) \<and> pos_y (handPosition g) = lm_y (lms ! 9))
        \<and> (\<exists>g. onResults_double (Some (lms # hs)) = Some g
            \<and> rotation g = lm_x (lms ! 0) \<and> pos_y (handPosition g) = lm_y (lms ! 9)))"
  using onResults_full [of lms hs] onResults_double_full [of lms hs]
    onResults_double_short [of lms hs]
  by (simp add: onResults_def tips_forEach_short)

text \<open>
  C5 (as amended). In exact arithmetic, for a hand of 21 landmarks the handler returns a
  signal whose \<open>isFist\<close> holds exactly
  when the mean distance from the wrist (landmark 0) to the tips 8, 12, 16, 20 is below
  0.25, whose \<open>isOpenPalm\<close> holds exactly when that mean is above 0.4 (so a mean in
  [0.25, 0.4] sets neither), and whose \<open>isPinching\<close> holds exactly when the distance between
  thumb tip (4) and index tip (8) is below 0.05.
\<close>

theorem onResults_thresholds:
  assumes "length lms = 21"
  shows "\<exists>g. onResults (Some (lms # hs)) = Some g
     \<and> (isFist g \<longleftrightarrow> mean_tip_distance lms < 0.25)
     \<and> (isOpenPalm g \<longleftrightarrow> mean_tip_distance lms > 0.4)
     \<and> (0.25 \<le> mean_tip_distance lms \<and> mean_tip_distance lms \<le> 0.4 \<longrightarrow> \<not> isFist g \<and> \<not> isOpenPalm g)
     \<and> (isPinching g \<longleftrightarrow> euclid2 (lms ! 4) (lms ! 8) < 0.05)"
proof -
  have t: "tips_forEach lms (Some (lms ! 0)) tips 0 = Some (4 * mean_tip_distance lms)"
    using assms tips_forEach_full [of lms] by (simp add: at_index_in)
  have l: "length tips = 4" by (simp add: tips_def)
  show ?thesis
    using assms
    by (simp add: onResults_def t l at_index_in get_x_def get_y_def euclid2_def mult.commute)
qed

text \<open>
  C10. No signal returned by the handler has \<open>isFist\<close> and \<open>isOpenPalm\<close> both true.
\<close>

theorem onResults_exclusive: "onResults r = Some g \<Longrightarrow> \<not> (isFist g \<and> isOpenPalm g)"
  by (auto simp: onResults_def neutral_def Let_def split: option.splits list.splits Option.bind_splits)

lemma onResults_fist_example:
  "onResults (Some [replicate 21 (Landmark 0 0)])
   = Some \<lparr>isFist = True, isOpenPalm = False, isPinching = True,
            handPosition = Pos2 1 0, rotation = 0\<rparr>"
  by (simp add: onResults_def tips_def at_index_def get_x_def get_y_def)

text \<open>
  Witness for C4 (as amended): twenty landmarks at the origin, and 21 landmarks at (5, 5),
  outside the image.
\<close>

theorem onResults_malformed_witness:
  "length (replicate 20 (Landmark 0 0)) < 21
   \<and> onResults (Some [replicate 20 (Landmark 0 0)]) = None
   \<and> onResults_double (Some [replicate 20 (Landmark 0 0)]) = None
   \<and> length (replicate 21 (Landmark 5 5)) = 21
   \<and> (\<exists>g. onResults (Some [replicate 21 (Landmark 5 5)]) = Some g
        \<and> rotation g = 5 \<and> pos_y (handPosition g) = 5)
   \<and> (\<exists>g. onResults_double (Some [replicate 21 (Landmark 5 5)]) = Some g
        \<and> rotation g = 5 \<and> pos_y (handPosition g) = 5)"
  using onResults_malformed [of "replicate 20 (Landmark 0 0)" "[]"]
    onResults_malformed [of "replicate 21 (Landmark 5 5)" "[]"]
  by simp

text \<open>
  Counterexample to C4 as stated: for a hand of twenty landmarks the handler fails and
  returns no signal, and for a hand of 21 landmarks at (5, 5), outside the image, it
  returns a signal with rotation 5 (in exact arithmetic the one with \<open>isFist\<close> and
  \<open>isPinching\<close> set and pointer (-4, 5)); neither is the neutral signal, in exact or in
  double arithmetic.
\<close>

theorem onResults_malformed_not_neutral:
  "onResults (Some [replicate 20 (Landmark 0 0)]) = None
   \<and> onResults (Some [replicate 20 (Landmark 0 0)]) \<noteq> Some neutral
   \<and> onResults_double (Some [replicate 20 (Landmark 0 0)]) \<noteq> Some neutral
   \<and> onResults (Some [replicate 21 (Landmark 5 5)])
       = Some \<lparr>isFist = True, isOpenPalm = False, isPinching = True,
                handPosition = Pos2 (- 4) 5, rotation = 5\<rparr>
   \<and> onResults (Some [replicate 21 (Landmark 5 5)]) \<noteq> Some neutral
   \<and> onResults_double (Some [replicate 21 (Landmark 5 5)]) \<noteq> Some neutral"
proof -
  have a: "onResults (Some [replicate 20 (Landmark 0 0)]) = None"
    by (simp add: onResults_def tips_forEach_short)
  have a': "onResults_double (Some [replicate 20 (Landmark 0 0)]) = None"
    by (rule onResults_double_short) simp
  have b: "onResults (Some [replicate 21 (Landmark 5 5)])
       = Some \<lparr>isFist = True, isOpenPalm = False, isPinching = True,
                handPosition = Pos2 (- 4) 5, rotation = 5\<rparr>"
    by (simp add: onResults_def tips_def at_index_def get_x_def get_y_def)
  obtain g where "onResults_double (Some [replicate 21 (Landmark 5 5)]) = Some g"
    and "rotation g = 5"
    using onResults_double_full [of "replicate 21 (Landmark 5 5)" "[]"] by auto
  then have b': "onResults_double (Some [replicate 21 (Landmark 5 5)]) \<noteq> Some neutral"
    by (auto simp: neutral_def)
  show ?thesis
    unfolding a a' b using b' by (simp add: neutral_def)
qed

text \<open>
  Witness for C5 (as amended): the half-open hand, whose mean tip distance 0.3 lies
  between the thresholds;
  it is neither closed nor open, and not pinching.
\<close>

theorem onResults_thresholds_witness:
  "length half_open_hand = 21
   \<and> 0.25 \<le> mean_tip_distance half_open_hand \<and> mean_tip_distance half_open_hand \<le> 0.4
   \<and> (\<exists>g. onResults (Some [half_open_hand]) = Some g
        \<and> \<not> isFist g \<and> \<not> isOpenPalm g \<and> \<not> isPinching g)"
proof -
  have l: "length half_open_hand = 21"
    by (simp add: half_open_hand_def)
  have m: "mean_tip_distance half_open_hand = 0.3"
    by (simp add: half_open_hand_def mean_tip_distance_def euclid2_def)
  have p: "euclid2 (half_open_hand ! 4) (half_open_hand ! 8) = 0.3"
    by (simp add: half_open_hand_def euclid2_def)
  show ?thesis
    using onResults_thresholds [OF l, of "[]"] l by (auto simp: m p)
qed

text \<open>Witness for C10: the signal computed for 21 landmarks at the origin.\<close>

theorem onResults_exclusive_witness:
  "onResults (Some [replicate 21 (Landmark 0 0)])
     = Some \<lparr>isFist = True, isOpenPalm = False, isPinching = True,
            handPosition = Pos2 1 0, rotation = 0\<rparr>
   \<and> \<not> (isFist \<lparr>isFist = True, isOpenPalm = False, isPinching = True,
            handPosition = Pos2 1 0, rotation = 0\<rparr>
          \<and> isOpenPalm \<lparr>isFist = True, isOpenPalm = False, isPinching = True,
            handPosition = Pos2 1 0, rotation = 0\<rparr>)"
  using onResults_exclusive [OF onResults_fist_example] onResults_fist_example by simp

section \<open>Double arithmetic: exact results and a tie\<close>

text \<open>
  A real \<open>m * 2^j\<close> with \<open>|m| < 2^53\<close> is a double and is its own rounding;
  \<open>1 - 2^-54\<close> lies halfway between the doubles \<open>1 - 2^-53\<close> and \<open>1\<close> and rounds to
  \<open>1\<close>, whose significand is even.
\<close>

lemma round_ties_even_of_int: "round_ties_even (of_int n) = n"
  by (simp add: round_ties_even_def)

lemma round_ties_even_half:
  "round_ties_even (of_int n + 1 / 2) = (if even n then n else n + 1)"
proof -
  have "\<lfloor>of_int n + 1 / 2 :: real\<rfloor> = n" by (subst floor_eq_iff) simp
  then show ?thesis by (simp add: round_ties_even_def)
qed

lemma fl_zero: "fl 0 = 0"
  by (simp add: fl_def)

lemma fl_exact:
  assumes x: "x = of_int m * 2 powr of_int j" and m: "\<bar>m\<bar> < 2 ^ 53"
  shows "fl x = x"
proof (cases "x = 0")
  case True
  then show ?thesis by (simp add: fl_def)
next
  case False
  define e where "e = \<lfloor>log 2 \<bar>x\<bar>\<rfloor>"
  have pos: "0 < \<bar>x\<bar>" using False by simp
  have "2 powr of_int e \<le> \<bar>x\<bar>"
    using floor_log_eq_powr_iff [of "\<bar>x\<bar>" 2 e] pos by (simp add: e_def)
  also have "\<bar>x\<bar> = of_int \<bar>m\<bar> * 2 powr of_int j"
    by (simp add: x abs_mult)
  also have "\<dots> < 2 ^ 53 * 2 powr of_int j"
  proof -
    have "(of_int \<bar>m\<bar> :: real) < of_int (2 ^ 53)" using m by (simp only: of_int_less_iff)
    then show ?thesis by (intro mult_strict_right_mono) simp_all
  qed
  also have "\<dots> = 2 powr (53 + of_int j)"
    by (simp add: powr_add)
  finally have "of_int e < (53::real) + of_int j" by simp
  then have le: "e \<le> 52 + j" by linarith
  define d where "d = nat (j - e + 52)"
  have d: "of_int j - of_int e + 52 = real d"
    using le by (simp add: d_def)
  define U :: real where "U = 2 powr (of_int e - 52)"
  have U: "0 < U" by (simp add: U_def)
  have u: "ulp x = U"
    by (simp add: ulp_def e_def U_def)
  have "(2::real) powr of_int j = 2 powr (real d) * 2 powr (of_int e - 52)"
    unfolding d [symmetric] powr_add [symmetric] by simp
  then have j: "(2::real) powr of_int j = 2 ^ d * U"
    by (simp add: powr_realpow U_def)
  have xe: "x = of_int (m * 2 ^ d) * U"
    using x j by simp
  have q: "x / ulp x = of_int (m * 2 ^ d)"
    unfolding u using xe U by simp
  have "fl x = of_int (m * 2 ^ d) * ulp x"
    using False unfolding fl_def q round_ties_even_of_int by simp
  also have "\<dots> = x"
    unfolding u using xe by simp
  finally show ?thesis .
qed

lemma fl_dyadic:
  assumes "\<bar>m\<bar> < 2 ^ 53"
  shows "fl (real_of_int m / 2 ^ k) = real_of_int m / 2 ^ k"
proof (rule fl_exact [OF _ assms])
  have "(2::real) powr of_int (- int k) = 1 / 2 ^ k"
    by (simp add: powr_minus_divide powr_realpow)
  then show "real_of_int m / 2 ^ k = real_of_int m * 2 powr of_int (- int k)"
    by simp
qed

lemma fl_tie_one: "fl (1 - 1 / 2 ^ 54) = 1"
proof -
  let ?x = "1 - 1 / 2 ^ 54 :: real"
  have b: "\<lfloor>log 2 \<bar>?x\<bar>\<rfloor> = - 1"
    by (subst floor_log_eq_powr_iff) (simp_all add: powr_minus_divide)
  have u: "ulp ?x = 1 / 2 ^ 53"
    unfolding ulp_def b by (simp add: powr_minus_divide)
  have q: "?x / ulp ?x = of_int (2 ^ 53 - 1) + 1 / 2"
    unfolding u by simp
  have h: "round_ties_even (of_int (2 ^ 53 - 1) + 1 / 2) = 2 ^ 53"
    by (subst round_ties_even_half) simp
  have r: "round_ties_even (?x / ulp ?x) = 2 ^ 53"
    unfolding q by (rule h)
  have "?x \<noteq> 0" by simp
  then have "fl ?x = of_int (round_ties_even (?x / ulp ?x)) * ulp ?x"
    unfolding fl_def by (rule if_not_P)
  also have "\<dots> = of_int (2 ^ 53) * ulp ?x"
    unfolding r ..
  also have "\<dots> = 1"
    unfolding u by simp
  finally show ?thesis .
qed

lemma tips_forEach_double_step:
  assumes "idx < length landmarks"
    and "landmarks ! idx = Landmark d 0"
    and "0 \<le> d" and "fl d = d" and "fl (d * d) = d * d"
  shows "tips_forEach_double landmarks (Some (Landmark 0 0)) (idx # rest) a
         = tips_forEach_double landmarks (Some (Landmark 0 0)) rest (fl (a + d))"
  using assms by (simp add: at_index_def get_x_def get_y_def fl_zero)

section \<open>Gesture classifier: rounding at a threshold\<close>

lemma rounding_hand_nth:
  "length rounding_hand = 21"
  "rounding_hand ! 0 = Landmark 0 0"
  "rounding_hand ! 4 = Landmark 0 0"
  "rounding_hand ! 9 = Landmark 0 0"
  "rounding_hand ! 8 = Landmark (1 / 2) 0"
  "rounding_hand ! 12 = Landmark (1 / 4) 0"
  "rounding_hand ! 16 = Landmark (1 / 4 - 1 / 2 ^ 28) 0"
  "rounding_hand ! 20 = Landmark (1 / 2 ^ 28 - 1 / 2 ^ 54) 0"
  by (simp_all add: rounding_hand_def)

lemma rounding_hand_total:
  "tips_forEach_double rounding_hand (Some (Landmark 0 0)) tips 0 = Some 1"
proof -
  let ?d3 = "1 / 4 - 1 / 2 ^ 28 :: real"
  let ?d4 = "1 / 2 ^ 28 - 1 / 2 ^ 54 :: real"
  have d1: "fl (1 / 2) = 1 / 2" "fl (1 / 2 * (1 / 2)) = 1 / 2 * (1 / 2)"
    using fl_dyadic [of 1 1] fl_dyadic [of 1 2] by simp_all
  have d2: "fl (1 / 4) = 1 / 4" "fl (1 / 4 * (1 / 4)) = 1 / 4 * (1 / 4)"
    using fl_dyadic [of 1 2] fl_dyadic [of 1 4] by simp_all
  have d3: "fl ?d3 = ?d3" "fl (?d3 * ?d3) = ?d3 * ?d3"
    using fl_dyadic [of "2 ^ 26 - 1" 28] fl_dyadic [of "(2 ^ 26 - 1) * (2 ^ 26 - 1)" 56]
    by simp_all
  have d4: "fl ?d4 = ?d4" "fl (?d4 * ?d4) = ?d4 * ?d4"
    using fl_dyadic [of "2 ^ 26 - 1" 54] fl_dyadic [of "(2 ^ 26 - 1) * (2 ^ 26 - 1)" 108]
    by simp_all
  have a1: "fl (0 + 1 / 2) = 1 / 2"
    using d1(1) by simp
  have a2: "fl (1 / 2 + 1 / 4) = 3 / 4"
    using fl_dyadic [of 3 2] by simp
  have a3: "fl (3 / 4 + ?d3) = 1 - 1 / 2 ^ 28"
    using fl_dyadic [of "2 ^ 28 - 1" 28] by simp
  have a4: "fl (1 - 1 / 2 ^ 28 + ?d4) = 1"
    using fl_tie_one by simp
  have p: "(0::real) \<le> 1 / 2" "(0::real) \<le> 1 / 4" "0 \<le> ?d3" "0 \<le> ?d4"
    by simp_all
  have "tips_forEach_double rounding_hand (Some (Landmark 0 0)) [8, 12, 16, 20] 0
        = tips_forEach_double rounding_hand (Some (Landmark 0 0)) [12, 16, 20] (fl (0 + 1 / 2))"
    by (rule tips_forEach_double_step [OF _ rounding_hand_nth(5) p(1) d1])
       (simp add: rounding_hand_nth)
  also have "\<dots> = tips_forEach_double rounding_hand (Some (Landmark 0 0)) [16, 20]
                      (fl (1 / 2 + 1 / 4))"
    unfolding a1
    by (rule tips_forEach_double_step [OF _ rounding_hand_nth(6) p(2) d2])
       (simp add: rounding_hand_nth)
  also have "\<dots> = tips_forEach_double rounding_hand (Some (Landmark 0 0)) [20]
                      (fl (3 / 4 + ?d3))"
    unfolding a2
    by (rule tips_forEach_double_step [OF _ rounding_hand_nth(7) p(3) d3])
       (simp add: rounding_hand_nth)
  also have "\<dots> = tips_forEach_double rounding_hand (Some (Landmark 0 0)) []
                      (fl (1 - 1 / 2 ^ 28 + ?d4))"
    unfolding a3
    by (rule tips_forEach_double_step [OF _ rounding_hand_nth(8) p(4) d4])
       (simp add: rounding_hand_nth)
  also have "\<dots> = Some 1"
    unfolding a4 by simp
  finally show ?thesis by (simp add: tips_def)
qed

text \<open>
  Counterexample to C5 as stated: the hand \<open>rounding_hand\<close> has 21 landmarks, and its mean
  wrist-to-tip distance, \<open>(1 - 2^-54) / 4\<close>, is below 0.25; but the sum the code
  accumulates rounds to 1, \<open>avgDist\<close> is the double 0.25, and \<open>isFist\<close> is false.
\<close>

theorem onResults_double_rounds_to_threshold:
  "length rounding_hand = 21
   \<and> mean_tip_distance rounding_hand = (1 - 1 / 2 ^ 54) / 4
   \<and> mean_tip_distance rounding_hand < 0.25
   \<and> map_option isFist (onResults_double (Some [rounding_hand])) = Some False"
proof -
  have m: "mean_tip_distance rounding_hand = (1 - 1 / 2 ^ 54) / 4"
    by (simp add: mean_tip_distance_def euclid2_def rounding_hand_nth)
  have q: "fl (1 / 4) = 1 / 4"
    using fl_dyadic [of 1 2] by simp
  have l: "length tips = 4" by (simp add: tips_def)
  have "map_option isFist (onResults_double (Some [rounding_hand])) = Some False"
    by (simp add: onResults_double_def rounding_hand_total q l at_index_def get_x_def
        get_y_def rounding_hand_nth)
  then show ?thesis
    using m by (simp add: rounding_hand_nth)
qed

section \<open>Layout generator: results\<close>

text \<open>
  The loop appends the item built for \<open>i\<close> and moves on to \<open>i + 1\<close>; what it has pushed
  stays where it is. So the item at index \<open>j\<close> of the result is the one built for \<open>j\<close>, at
  whatever number of draws had been made by then.
\<close>

lemma loop_unfold_lt:
  "i < count \<Longrightarrow> generateTreeLayout_loop count photoUrls rnd i k particles
     = generateTreeLayout_loop count photoUrls rnd (Suc i)
         (snd (make_particle count photoUrls rnd i k))
         (particles @ [fst (make_particle count photoUrls rnd i k)])"
  by (subst generateTreeLayout_loop.simps) (simp add: split_def)

lemma loop_unfold_ge:
  "\<not> i < count \<Longrightarrow> generateTreeLayout_loop count photoUrls rnd i k particles = particles"
  by (subst generateTreeLayout_loop.simps) simp

lemma loop_length:
  "length (generateTreeLayout_loop count photoUrls rnd i k particles)
     = length particles + (count - i)"
proof (induction count photoUrls rnd i k particles rule: generateTreeLayout_loop.induct)
  case (1 count photoUrls rnd i k particles)
  show ?case
  proof (cases "i < count")
    case True
    then show ?thesis
      using "1.IH" [OF True prod.collapse]
      by (simp add: loop_unfold_lt)
  next
    case False
    then show ?thesis by (simp add: loop_unfold_ge)
  qed
qed

lemma loop_prefix:
  "j < length particles \<Longrightarrow>
   generateTreeLayout_loop count photoUrls rnd i k particles ! j = particles ! j"
proof (induction count photoUrls rnd i k particles rule: generateTreeLayout_loop.induct)
  case (1 count photoUrls rnd i k particles)
  show ?case
  proof (cases "i < count")
    case True
    then show ?thesis
      using "1.IH" [OF True prod.collapse] "1.prems"
      by (simp add: loop_unfold_lt nth_append)
  next
    case False
    then show ?thesis by (simp add: loop_unfold_ge)
  qed
qed

lemma loop_nth:
  "length particles = i \<Longrightarrow> i \<le> j \<Longrightarrow> j < count \<Longrightarrow>
   \<exists>k'. generateTreeLayout_loop count photoUrls rnd i k particles ! j
         = fst (make_particle count photoUrls rnd j k')"
proof (induction count photoUrls rnd i k particles rule: generateTreeLayout_loop.induct)
  case (1 count photoUrls rnd i k particles)
  have lt: "i < count" using "1.prems" by simp
  let ?p = "fst (make_particle count photoUrls rnd i k)"
  let ?k = "snd (make_particle count photoUrls rnd i k)"
  show ?case
  proof (cases "i = j")
    case True
    have "generateTreeLayout_loop count photoUrls rnd (Suc i) ?k (particles @ [?p]) ! j
          = (particles @ [?p]) ! j"
      using "1.prems" True by (intro loop_prefix) simp
    then show ?thesis
      using "1.prems" True lt by (auto simp: loop_unfold_lt nth_append)
  next
    case False
    then show ?thesis
      using "1.IH" [OF lt prod.collapse] "1.prems" lt
      by (simp add: loop_unfold_lt)
  qed
qed

lemma generateTreeLayout_nth:
  "j < count \<Longrightarrow>
   \<exists>k. generateTreeLayout count photoUrls rnd ! j = fst (make_particle count photoUrls rnd j k)"
  unfolding generateTreeLayout_def by (rule loop_nth) simp_all

lemma generateTreeLayout_length: "length (generateTreeLayout count photoUrls rnd) = count"
  by (simp add: generateTreeLayout_def loop_length)

lemma make_particle_id: "id_p (fst (make_particle count photoUrls rnd i k)) = i"
  by (simp add: make_particle_def Let_def split_def)

lemma make_particle_type:
  "type_p (fst (make_particle count photoUrls rnd i k)) = PHOTO \<longleftrightarrow> i < length photoUrls"
  by (simp add: make_particle_def Let_def split_def)

lemma make_particle_textureUrl:
  "textureUrl (fst (make_particle count photoUrls rnd i k))
     = (if i < length photoUrls then Some (photoUrls ! i) else None)"
  by (simp add: make_particle_def Let_def split_def)

lemma sphere_algebra:
  fixes R s c d e :: real
  shows "R * s * c * (R * s * c) + R * s * d * (R * s * d) + R * e * (R * e)
         = R\<^sup>2 * (s\<^sup>2 * (c\<^sup>2 + d\<^sup>2) + e\<^sup>2)"
  by (simp add: power2_eq_square algebra_simps)

lemma sphere_point_magnitude:
  "magnitude (Vector3 (explodeRadius * sin p * cos t) (explodeRadius * sin p * sin t)
                      (explodeRadius * cos p)) = explodeRadius"
proof -
  have "magnitude (Vector3 (explodeRadius * sin p * cos t) (explodeRadius * sin p * sin t)
                      (explodeRadius * cos p))
        = sqrt (explodeRadius\<^sup>2 * ((sin p)\<^sup>2 * ((cos t)\<^sup>2 + (sin t)\<^sup>2) + (cos p)\<^sup>2))"
    unfolding magnitude_def Vector3.sel sphere_algebra ..
  also have "\<dots> = sqrt (explodeRadius\<^sup>2)" by simp
  also have "\<dots> = explodeRadius" by (simp add: explodeRadius_def)
  finally show ?thesis .
qed

lemma make_particle_magnitude:
  "magnitude (explodedPosition (fst (make_particle count photoUrls rnd i k))) = explodeRadius"
  by (simp add: make_particle_def Let_def split_def sphere_point_magnitude)

lemma generateTreeLayout_ids: "map id_p (generateTreeLayout count photoUrls rnd) = [0..<count]"
proof (rule nth_equalityI)
  show "length (map id_p (generateTreeLayout count photoUrls rnd)) = length [0..<count]"
    by (simp add: generateTreeLayout_length)
next
  fix i assume "i < length (map id_p (generateTreeLayout count photoUrls rnd))"
  then have i: "i < count" by (simp add: generateTreeLayout_length)
  then obtain k where "generateTreeLayout count photoUrls rnd ! i
      = fst (make_particle count photoUrls rnd i k)"
    using generateTreeLayout_nth by blast
  then show "map id_p (generateTreeLayout count photoUrls rnd) ! i = [0..<count] ! i"
    using i by (simp add: generateTreeLayout_length make_particle_id)
qed

lemma generateTreeLayout_single:
  "generateTreeLayout (Suc 0) photoUrls rnd = [fst (make_particle (Suc 0) photoUrls rnd 0 0)]"
  by (simp add: generateTreeLayout_def loop_unfold_lt loop_unfold_ge)

text \<open>
  C7. For every count and every list of photo URLs the generator returns exactly \<open>count\<close>
  items, with ids \<open>0, \<dots>, count - 1\<close> in order (hence distinct); none for count 0; item \<open>i\<close> is of
  type PHOTO exactly when \<open>i\<close> is below the number of URLs, and then carries the URL at index
  \<open>i\<close> (no URL otherwise). The generator is total: the loop is defined with its termination
  proof.
\<close>

theorem generateTreeLayout_items:
  "length (generateTreeLayout count photoUrls rnd) = count
   \<and> map id_p (generateTreeLayout count photoUrls rnd) = [0..<count]
   \<and> distinct (map id_p (generateTreeLayout count photoUrls rnd))
   \<and> generateTreeLayout 0 photoUrls rnd = []
   \<and> (\<forall>i<count. (type_p (generateTreeLayout count photoUrls rnd ! i) = PHOTO)
                     = (i < length photoUrls))
   \<and> (\<forall>i<count. textureUrl (generateTreeLayout count photoUrls rnd ! i)
                     = (if i < length photoUrls then Some (photoUrls ! i) else None))"
proof -
  have ty: "(type_p (generateTreeLayout count photoUrls rnd ! i) = PHOTO) = (i < length photoUrls)"
    if "i < count" for i
    using generateTreeLayout_nth [OF that, of photoUrls rnd] by (auto simp: make_particle_type)
  have tx: "textureUrl (generateTreeLayout count photoUrls rnd ! i)
              = (if i < length photoUrls then Some (photoUrls ! i) else None)"
    if "i < count" for i
    using generateTreeLayout_nth [OF that, of photoUrls rnd]
    by (auto simp: make_particle_textureUrl)
  have e: "generateTreeLayout 0 photoUrls rnd = []"
    by (simp add: generateTreeLayout_def loop_unfold_ge)
  show ?thesis
    using ty tx e by (simp add: generateTreeLayout_length generateTreeLayout_ids)
qed

text \<open>Witness for C7: two items, one photo URL.\<close>

theorem generateTreeLayout_items_witness:
  "length (generateTreeLayout 2 [''a''] (\<lambda>_. 0)) = 2
   \<and> map id_p (generateTreeLayout 2 [''a''] (\<lambda>_. 0)) = [0, 1]
   \<and> type_p (generateTreeLayout 2 [''a''] (\<lambda>_. 0) ! 0) = PHOTO
   \<and> type_p (generateTreeLayout 2 [''a''] (\<lambda>_. 0) ! 1) \<noteq> PHOTO
   \<and> textureUrl (generateTreeLayout 2 [''a''] (\<lambda>_. 0) ! 0) = Some ''a''
   \<and> textureUrl (generateTreeLayout 2 [''a''] (\<lambda>_. 0) ! 1) = None"
proof -
  have u: "[0..<2] = [0, 1::nat]" by (simp add: upt_rec)
  show ?thesis
    using generateTreeLayout_items [of 2 "[''a'']" "\<lambda>_. 0"] by (simp add: u)
qed

text \<open>
  C8. Every item of the generator's result has an exploded position of magnitude 25, the
  explode radius, whatever values are drawn.
\<close>

theorem generateTreeLayout_on_sphere:
  "p \<in> set (generateTreeLayout count photoUrls rnd)
   \<Longrightarrow> magnitude (explodedPosition p) = explodeRadius \<and> explodeRadius = 25"
proof -
  assume "p \<in> set (generateTreeLayout count photoUrls rnd)"
  then obtain i where "i < count" and "p = generateTreeLayout count photoUrls rnd ! i"
    by (auto simp: in_set_conv_nth generateTreeLayout_length)
  then obtain k where "p = fst (make_particle count photoUrls rnd i k)"
    using generateTreeLayout_nth by metis
  then show ?thesis
    by (simp add: make_particle_magnitude) (simp add: explodeRadius_def)
qed

text \<open>Witness for C8: the single item of a one-item layout.\<close>

theorem generateTreeLayout_on_sphere_witness:
  "fst (make_particle 1 [] (\<lambda>_. 1 / 2) 0 0) \<in> set (generateTreeLayout 1 [] (\<lambda>_. 1 / 2))
   \<and> magnitude (explodedPosition (fst (make_particle 1 [] (\<lambda>_. 1 / 2) 0 0))) = 25"
  using generateTreeLayout_on_sphere
    [of "fst (make_particle 1 [] (\<lambda>_. 1 / 2) 0 0)" 1 "[]" "\<lambda>_. 1 / 2"]
  by (simp add: generateTreeLayout_single)

text \<open>
  C9 (as amended). Two runs with the same count and the same URLs, on any two sequences of
  draws, agree on every photo item's type, URL, id, colour, scale and tree-position height;
  nothing is claimed for the other coordinates of the positions, which depend on the draws.
\<close>

theorem generateTreeLayout_media_stable:
  assumes "i < count" and "i < length photoUrls"
  shows "type_p (generateTreeLayout count photoUrls rnd1 ! i) = PHOTO
     \<and> type_p (generateTreeLayout count photoUrls rnd2 ! i) = PHOTO
     \<and> textureUrl (generateTreeLayout count photoUrls rnd1 ! i) = Some (photoUrls ! i)
     \<and> textureUrl (generateTreeLayout count photoUrls rnd2 ! i) = Some (photoUrls ! i)
     \<and> id_p (generateTreeLayout count photoUrls rnd1 ! i)
         = id_p (generateTreeLayout count photoUrls rnd2 ! i)
     \<and> color (generateTreeLayout count photoUrls rnd1 ! i)
         = color (generateTreeLayout count photoUrls rnd2 ! i)
     \<and> scale_p (generateTreeLayout count photoUrls rnd1 ! i)
         = scale_p (generateTreeLayout count photoUrls rnd2 ! i)
     \<and> vy (treePosition (generateTreeLayout count photoUrls rnd1 ! i))
         = vy (treePosition (generateTreeLayout count photoUrls rnd2 ! i))"
proof -
  obtain k1 where p: "generateTreeLayout count photoUrls rnd1 ! i
      = fst (make_particle count photoUrls rnd1 i k1)"
    using generateTreeLayout_nth [OF assms(1)] by blast
  obtain k2 where q: "generateTreeLayout count photoUrls rnd2 ! i
      = fst (make_particle count photoUrls rnd2 i k2)"
    using generateTreeLayout_nth [OF assms(1)] by blast
  show ?thesis
    unfolding p q using assms(2) by (simp add: make_particle_def Let_def split_def)
qed

text \<open>Witness for C9 (as amended): one photo item, draws constantly 0 against constantly 1/2.\<close>

theorem generateTreeLayout_media_stable_witness:
  "(0::nat) < 1 \<and> 0 < length [''a'']
   \<and> textureUrl (generateTreeLayout 1 [''a''] (\<lambda>_. 0) ! 0) = Some ''a''
   \<and> textureUrl (generateTreeLayout 1 [''a''] (\<lambda>_. 1 / 2) ! 0) = Some ''a''
   \<and> vy (treePosition (generateTreeLayout 1 [''a''] (\<lambda>_. 0) ! 0))
       = vy (treePosition (generateTreeLayout 1 [''a''] (\<lambda>_. 1 / 2) ! 0))"
  using generateTreeLayout_media_stable [of 0 1 "[''a'']" "\<lambda>_. 0" "\<lambda>_. 1 / 2"] by simp

text \<open>
  Counterexample to C9 as stated: the same call on two sequences of draws gives the photo
  item different tree positions and different exploded positions.
\<close>

theorem generateTreeLayout_rerandomized:
  "treePosition (generateTreeLayout 1 [''a''] (\<lambda>_. 0) ! 0) = Vector3 7 (- 9) 0
   \<and> treePosition (generateTreeLayout 1 [''a''] (\<lambda>_. 1 / 2) ! 0) = Vector3 7.25 (- 9) 0
   \<and> explodedPosition (generateTreeLayout 1 [''a''] (\<lambda>_. 0) ! 0) = Vector3 0 0 (- 25)
   \<and> explodedPosition (generateTreeLayout 1 [''a''] (\<lambda>_. 1 / 2) ! 0) = Vector3 (- 25) 0 0
   \<and> treePosition (generateTreeLayout 1 [''a''] (\<lambda>_. 0) ! 0)
       \<noteq> treePosition (generateTreeLayout 1 [''a''] (\<lambda>_. 1 / 2) ! 0)
   \<and> explodedPosition (generateTreeLayout 1 [''a''] (\<lambda>_. 0) ! 0)
       \<noteq> explodedPosition (generateTreeLayout 1 [''a''] (\<lambda>_. 1 / 2) ! 0)"
  by (simp add: generateTreeLayout_single make_particle_def Let_def height_def
      bottomRadius_def explodeRadius_def)

section \<open>Animator: the interpolation step\<close>

text \<open>
  One \<open>lerp\<close> with factor \<open>a\<close> multiplies the offset from the target by \<open>1 - a\<close>, hence
  \<open>n\<close> of them by \<open>(1 - a) ^ n\<close>.
\<close>

lemma distanceTo_nonneg: "0 \<le> distanceTo a b"
  by (simp add: distanceTo_def)

lemma distanceTo_eq_0: "distanceTo a b = 0 \<longleftrightarrow> a = b"
proof -
  have "(vx a - vx b)\<^sup>2 + (vy a - vy b)\<^sup>2 + (vz a - vz b)\<^sup>2 = 0
        \<longleftrightarrow> vx a = vx b \<and> vy a = vy b \<and> vz a = vz b"
    by (simp add: sum_power2_eq_zero_iff add_nonneg_eq_0_iff)
  moreover have "vx a = vx b \<and> vy a = vy b \<and> vz a = vz b \<longleftrightarrow> a = b"
    by (auto intro: Vector3.expand)
  ultimately show ?thesis
    by (simp add: distanceTo_def)
qed

lemma distanceTo_pos: "a \<noteq> b \<Longrightarrow> 0 < distanceTo a b"
  using distanceTo_nonneg [of a b] distanceTo_eq_0 [of a b] by linarith

lemma lerp3_offset:
  "vx (lerp3 c t a) - vx t = (1 - a) * (vx c - vx t)"
  "vy (lerp3 c t a) - vy t = (1 - a) * (vy c - vy t)"
  "vz (lerp3 c t a) - vz t = (1 - a) * (vz c - vz t)"
  by (simp_all add: lerp3_def algebra_simps)

lemma distanceTo_lerp3:
  assumes "a \<le> 1"
  shows "distanceTo (lerp3 c t a) t = (1 - a) * distanceTo c t"
proof -
  have "(vx (lerp3 c t a) - vx t)\<^sup>2 + (vy (lerp3 c t a) - vy t)\<^sup>2 + (vz (lerp3 c t a) - vz t)\<^sup>2
        = (1 - a)\<^sup>2 * ((vx c - vx t)\<^sup>2 + (vy c - vy t)\<^sup>2 + (vz c - vz t)\<^sup>2)"
    unfolding lerp3_offset by (simp add: power_mult_distrib distrib_left)
  then have "distanceTo (lerp3 c t a) t
        = sqrt ((1 - a)\<^sup>2 * ((vx c - vx t)\<^sup>2 + (vy c - vy t)\<^sup>2 + (vz c - vz t)\<^sup>2))"
    by (simp add: distanceTo_def)
  also have "\<dots> = \<bar>1 - a\<bar> * distanceTo c t"
    by (simp add: real_sqrt_mult distanceTo_def)
  finally show ?thesis using assms by simp
qed

lemma distanceTo_iterate:
  assumes "a \<le> 1"
  shows "distanceTo (((\<lambda>c. lerp3 c t a) ^^ n) c) t = (1 - a) ^ n * distanceTo c t"
  by (induction n) (simp_all add: distanceTo_lerp3 [OF assms])

lemma lerp3_between:
  assumes "0 \<le> a" and "a \<le> 1"
  shows "min p q \<le> p + (q - p) * a \<and> p + (q - p) * a \<le> max p (q::real)"
proof (cases "p \<le> q")
  case True
  have h1: "0 \<le> (q - p) * a"
    using True assms by simp
  have "(q - p) * a \<le> (q - p) * 1"
    using True assms by (intro mult_left_mono) simp_all
  then have h2: "(q - p) * a \<le> q - p" by (simp only: mult_1_right)
  from True have "min p q = p" "max p q = q" by simp_all
  then show ?thesis using h1 h2 by linarith
next
  case False
  have h1: "(q - p) * a \<le> 0"
    using False assms by (intro mult_nonpos_nonneg) simp_all
  have "(q - p) * 1 \<le> (q - p) * a"
    using False assms by (intro mult_left_mono_neg) simp_all
  then have h2: "q - p \<le> (q - p) * a" by (simp only: mult_1_right)
  from False have "min p q = q" "max p q = p" by simp_all
  then show ?thesis using h1 h2 by linarith
qed

lemma lerp3_converges:
  assumes "0 < a" and "a < 1"
  shows "(\<lambda>n. distanceTo (((\<lambda>c. lerp3 c t a) ^^ n) c) t) \<longlonglongrightarrow> 0"
proof -
  have "(\<lambda>n. (1 - a) ^ n) \<longlonglongrightarrow> 0"
    using assms by (intro LIMSEQ_realpow_zero) simp_all
  then have "(\<lambda>n. (1 - a) ^ n * distanceTo c t) \<longlonglongrightarrow> 0 * distanceTo c t"
    by (intro tendsto_mult tendsto_const)
  then show ?thesis
    using assms by (simp add: distanceTo_iterate)
qed

lemma approaches_target_lerp3:
  assumes a: "0 < a" "a < 1" and step: "\<And>n. pos (Suc n) = lerp3 (pos n) target a"
  shows "approaches_target pos target a"
proof -
  have it: "pos n = ((\<lambda>c. lerp3 c target a) ^^ n) (pos 0)" for n
    by (induction n) (simp_all add: step)
  have d: "distanceTo (pos n) target = (1 - a) ^ n * distanceTo (pos 0) target" for n
    using a by (subst it) (simp add: distanceTo_iterate)
  have m: "min 1 a = a" using a by simp
  have f: "pos (Suc n)
            = Vector3 (vx (pos n) + (vx target - vx (pos n)) * min 1 a)
                      (vy (pos n) + (vy target - vy (pos n)) * min 1 a)
                      (vz (pos n) + (vz target - vz (pos n)) * min 1 a)" for n
    by (simp add: step [of n] lerp3_def m)
  have b: "min (vx (pos n)) (vx target) \<le> vx (pos (Suc n))
          \<and> vx (pos (Suc n)) \<le> max (vx (pos n)) (vx target)
          \<and> min (vy (pos n)) (vy target) \<le> vy (pos (Suc n))
          \<and> vy (pos (Suc n)) \<le> max (vy (pos n)) (vy target)
          \<and> min (vz (pos n)) (vz target) \<le> vz (pos (Suc n))
          \<and> vz (pos (Suc n)) \<le> max (vz (pos n)) (vz target)" for n
    using lerp3_between [of a "vx (pos n)" "vx target"]
      lerp3_between [of a "vy (pos n)" "vy target"]
      lerp3_between [of a "vz (pos n)" "vz target"] a
    by (simp add: step lerp3_def)
  have s: "distanceTo (pos (Suc n)) target < distanceTo (pos n) target \<and> pos n \<noteq> target"
    if "pos 0 \<noteq> target" for n
  proof -
    have p: "0 < (1 - a) ^ n * distanceTo (pos 0) target"
      using a distanceTo_pos [OF that] by simp
    then have "(1 - a) * ((1 - a) ^ n * distanceTo (pos 0) target)
               < 1 * ((1 - a) ^ n * distanceTo (pos 0) target)"
      using a by (intro mult_strict_right_mono) simp_all
    then have "distanceTo (pos (Suc n)) target < distanceTo (pos n) target"
      using d [of n] d [of "Suc n"] by simp
    moreover have "pos n \<noteq> target"
    proof
      assume "pos n = target"
      then have "distanceTo (pos n) target = 0" by (simp add: distanceTo_eq_0)
      with p show False using d [of n] by simp
    qed
    ultimately show ?thesis by simp
  qed
  have "(\<lambda>n. distanceTo (((\<lambda>c. lerp3 c target a) ^^ n) (pos 0)) target) \<longlonglongrightarrow> 0"
    using a by (rule lerp3_converges)
  then have l: "(\<lambda>n. distanceTo (pos n) target) \<longlonglongrightarrow> 0"
    by (simp flip: it)
  show ?thesis
    unfolding approaches_target_def using f b s l by blast
qed

section \<open>Animator: what a frame writes\<close>

text \<open>
  A frame of a particle group writes its current positions, the dummy and vectors it has
  just allocated, and nothing else: every object that existed before the frame and is none
  of these keeps its value, the particles' tree and exploded positions among them. It moves
  each current position by \<open>lerp\<close> with factor \<open>delta * 3\<close> toward the target of the mode.

  A frame of a photo moves the mesh position by \<open>lerp\<close> with factor \<open>delta * 3\<close> and the
  mesh scale by \<open>lerp\<close> with factor \<open>delta * 2\<close>. It leaves the particle's tree position
  alone in every mode, and its exploded position in modes TREE and FOCUS; in mode EXPLODED
  it adds the float offset to the stored exploded position itself.
\<close>

lemma at_index_mem: "at_index xs i = Some x \<Longrightarrow> x \<in> set xs"
  by (auto simp: at_index_def split: if_splits)

lemma ParticleGroup_target_frame:
  assumes "ParticleGroup_target mode t p h = (target, h1)" and "a < fresh h"
  shows "cells h1 a = cells h a \<and> fresh h \<le> fresh h1"
  using assms
  by (auto simp: ParticleGroup_target_def v_clone_def v_new_def v_add_def v_multiplyScalar_def
      Let_def split: if_splits)

lemma ParticleGroup_step_frame:
  assumes "ParticleGroup_step mode t delta dummy cps i p h = Some h'"
    and "a < fresh h" and "a \<notin> set cps"
    and "a \<noteq> obj_position dummy" and "a \<noteq> obj_scale dummy"
  shows "cells h' a = cells h a \<and> fresh h \<le> fresh h'"
proof -
  obtain target h1 where tg: "ParticleGroup_target mode t p h = (target, h1)"
    by (cases "ParticleGroup_target mode t p h")
  obtain cur where cur: "at_index cps i = Some cur"
    using assms(1) tg by (auto simp: ParticleGroup_step_def split: option.splits)
  then have ne: "a \<noteq> cur" using at_index_mem assms(3) by metis
  have h': "h' = v_setScalar (obj_scale dummy) (scale_p p)
                  (v_copy (obj_position dummy) cur (v_lerp cur target (delta * 3) h1))"
    using assms(1) tg cur by (simp add: ParticleGroup_step_def)
  have "cells h' a = cells h1 a \<and> fresh h' = fresh h1"
    unfolding h' using ne assms(4,5)
    by (simp add: v_setScalar_def v_copy_def v_lerp_def)
  then show ?thesis
    using ParticleGroup_target_frame [OF tg assms(2)] by simp
qed

lemma ParticleGroup_loop_frame:
  assumes "ParticleGroup_loop mode t delta dummy cps i data h = Some h'"
    and "a < fresh h" and "a \<notin> set cps"
    and "a \<noteq> obj_position dummy" and "a \<noteq> obj_scale dummy"
  shows "cells h' a = cells h a \<and> fresh h \<le> fresh h'"
  using assms(1,2)
proof (induction data arbitrary: i h)
  case Nil
  then show ?case by simp
next
  case (Cons p data)
  from Cons.prems(1) obtain h1 where
    s: "ParticleGroup_step mode t delta dummy cps i p h = Some h1" and
    l: "ParticleGroup_loop mode t delta dummy cps (i + 1) data h1 = Some h'"
    by (auto split: option.splits)
  have f: "cells h1 a = cells h a \<and> fresh h \<le> fresh h1"
    using ParticleGroup_step_frame [OF s Cons.prems(2) assms(3,4,5)] .
  then have "a < fresh h1" using Cons.prems(2) by simp
  from Cons.IH [OF l this] f show ?case by simp
qed

lemma ParticleGroup_useFrame_frame:
  assumes "ParticleGroup_useFrame present mode t delta dummy cps data h = Some h'"
    and "a < fresh h" and "a \<notin> set cps"
    and "a \<noteq> obj_position dummy" and "a \<noteq> obj_scale dummy"
  shows "cells h' a = cells h a"
proof (cases present)
  case True
  then have "ParticleGroup_loop mode t delta dummy cps 0 data h = Some h'"
    using assms(1) by (simp add: ParticleGroup_useFrame_def)
  from ParticleGroup_loop_frame [OF this assms(2-5)] show ?thesis by simp
next
  case False
  then show ?thesis using assms(1) by (simp add: ParticleGroup_useFrame_def)
qed

lemma ParticleGroup_step_lerp:
  assumes "ParticleGroup_target mode t p h = (target, h1)"
    and "at_index cps i = Some cur"
    and "cur \<noteq> obj_position dummy" and "cur \<noteq> obj_scale dummy"
  shows "\<exists>h'. ParticleGroup_step mode t delta dummy cps i p h = Some h'
          \<and> cells h' cur = lerp3 (cells h1 cur) (cells h1 target) (delta * 3)"
  using assms
  by (simp add: ParticleGroup_step_def v_setScalar_def v_copy_def v_lerp_def)

lemma SinglePhoto_useFrame_lerp:
  assumes "SinglePhoto_target mode t p h = (target, sc, h1)"
    and "obj_position mesh \<noteq> obj_scale mesh"
    and "obj_position mesh < fresh h1" and "obj_scale mesh < fresh h1"
  shows "cells (SinglePhoto_useFrame (Some mesh) mode t delta p h) (obj_position mesh)
           = lerp3 (cells h1 (obj_position mesh)) (cells h1 target) (delta * 3)
         \<and> cells (SinglePhoto_useFrame (Some mesh) mode t delta p h) (obj_scale mesh)
           = lerp3 (cells h1 (obj_scale mesh)) (Vector3 sc sc sc) (delta * 2)"
  using assms
  by (simp add: SinglePhoto_useFrame_def v_lerp_def v_new_def)

lemma SinglePhoto_useFrame_explodedPosition:
  assumes "explodedPosition p < fresh h"
    and "explodedPosition p \<noteq> obj_position mesh" and "explodedPosition p \<noteq> obj_scale mesh"
  shows "cells (SinglePhoto_useFrame (Some mesh) mode t delta p h) (explodedPosition p)
         = (if mode = EXPLODED
            then add3 (cells h (explodedPosition p))
                      (Vector3 0 (sin (t + real (id_p p)) * 0.5) 0)
            else cells h (explodedPosition p))"
  using assms
  by (simp add: SinglePhoto_useFrame_def SinglePhoto_target_def v_lerp_def v_new_def v_add_def
      v_clone_def v_multiplyScalar_def Let_def)

lemma SinglePhoto_useFrame_treePosition:
  assumes "treePosition p < fresh h" and "treePosition p \<noteq> explodedPosition p"
    and "treePosition p \<noteq> obj_position mesh" and "treePosition p \<noteq> obj_scale mesh"
  shows "cells (SinglePhoto_useFrame (Some mesh) mode t delta p h) (treePosition p)
         = cells h (treePosition p)"
  using assms
  by (simp add: SinglePhoto_useFrame_def SinglePhoto_target_def v_lerp_def v_new_def v_add_def
      v_clone_def v_multiplyScalar_def Let_def)

section \<open>Animator: frame after frame toward a fixed target\<close>

text \<open>
  In modes TREE and FOCUS a frame leaves the particle's vectors alone, so every frame
  steers toward the same target, the one of the first frame.
\<close>

lemma SinglePhoto_goal_fixed:
  assumes "mode \<noteq> EXPLODED"
    and "cells h' (treePosition p) = cells h (treePosition p)"
    and "cells h' (explodedPosition p) = cells h (explodedPosition p)"
  shows "SinglePhoto_goal mode t' p h' = SinglePhoto_goal mode t p h"
  using assms
  by (simp add: SinglePhoto_goal_def SinglePhoto_target_def v_new_def v_clone_def
      v_multiplyScalar_def Let_def)

lemma SinglePhoto_useFrame_step:
  assumes "photo_scene mesh p h" and "mode \<noteq> EXPLODED"
  shows "photo_scene mesh p (SinglePhoto_useFrame (Some mesh) mode t delta p h)"
    and "cells (SinglePhoto_useFrame (Some mesh) mode t delta p h) (treePosition p)
           = cells h (treePosition p)"
    and "cells (SinglePhoto_useFrame (Some mesh) mode t delta p h) (explodedPosition p)
           = cells h (explodedPosition p)"
    and "cells (SinglePhoto_useFrame (Some mesh) mode t delta p h) (obj_position mesh)
           = lerp3 (cells h (obj_position mesh)) (fst (SinglePhoto_goal mode t p h)) (delta * 3)"
    and "cells (SinglePhoto_useFrame (Some mesh) mode t delta p h) (obj_scale mesh)
           = lerp3 (cells h (obj_scale mesh)) (snd (SinglePhoto_goal mode t p h)) (delta * 2)"
  using assms
  by (auto simp: photo_scene_def SinglePhoto_useFrame_def SinglePhoto_goal_def
      SinglePhoto_target_def v_lerp_def v_new_def v_add_def v_clone_def v_multiplyScalar_def
      Let_def)

lemma SinglePhoto_frames_inv:
  assumes "photo_scene mesh p h" and "mode \<noteq> EXPLODED"
  shows "photo_scene mesh p (SinglePhoto_frames mesh mode ts delta p h n)
       \<and> cells (SinglePhoto_frames mesh mode ts delta p h n) (treePosition p)
           = cells h (treePosition p)
       \<and> cells (SinglePhoto_frames mesh mode ts delta p h n) (explodedPosition p)
           = cells h (explodedPosition p)"
proof (induction n)
  case 0
  show ?case using assms by simp
next
  case (Suc n)
  then show ?case
    using SinglePhoto_useFrame_step(1-3)
            [of mesh p "SinglePhoto_frames mesh mode ts delta p h n" mode "ts n" delta] assms(2)
    by simp
qed

lemma SinglePhoto_frames_step:
  assumes "photo_scene mesh p h" and "mode \<noteq> EXPLODED"
  shows "cells (SinglePhoto_frames mesh mode ts delta p h (Suc n)) (obj_position mesh)
           = lerp3 (cells (SinglePhoto_frames mesh mode ts delta p h n) (obj_position mesh))
                   (fst (SinglePhoto_goal mode (ts 0) p h)) (delta * 3)"
    and "cells (SinglePhoto_frames mesh mode ts delta p h (Suc n)) (obj_scale mesh)
           = lerp3 (cells (SinglePhoto_frames mesh mode ts delta p h n) (obj_scale mesh))
                   (snd (SinglePhoto_goal mode (ts 0) p h)) (delta * 2)"
proof -
  let ?h = "SinglePhoto_frames mesh mode ts delta p h n"
  have inv: "photo_scene mesh p ?h"
    "cells ?h (treePosition p) = cells h (treePosition p)"
    "cells ?h (explodedPosition p) = cells h (explodedPosition p)"
    using SinglePhoto_frames_inv [OF assms, of ts delta n] by simp_all
  have g: "SinglePhoto_goal mode (ts n) p ?h = SinglePhoto_goal mode (ts 0) p h"
    using SinglePhoto_goal_fixed [OF assms(2) inv(2,3)] .
  show "cells (SinglePhoto_frames mesh mode ts delta p h (Suc n)) (obj_position mesh)
           = lerp3 (cells ?h (obj_position mesh)) (fst (SinglePhoto_goal mode (ts 0) p h))
               (delta * 3)"
    using SinglePhoto_useFrame_step(4) [OF inv(1) assms(2), of "ts n" delta] g by simp
  show "cells (SinglePhoto_frames mesh mode ts delta p h (Suc n)) (obj_scale mesh)
           = lerp3 (cells ?h (obj_scale mesh)) (snd (SinglePhoto_goal mode (ts 0) p h))
               (delta * 2)"
    using SinglePhoto_useFrame_step(5) [OF inv(1) assms(2), of "ts n" delta] g by simp
qed

lemma ParticleGroup_goal_cong:
  assumes "cells h' (treePosition p) = cells h (treePosition p)"
    and "cells h' (explodedPosition p) = cells h (explodedPosition p)"
    and "t' = t \<or> mode \<noteq> EXPLODED"
  shows "ParticleGroup_goal mode t' p h' = ParticleGroup_goal mode t p h"
  using assms
  by (auto simp: ParticleGroup_goal_def ParticleGroup_target_def v_new_def v_clone_def
      v_add_def v_multiplyScalar_def Let_def)

lemma ParticleGroup_step_result:
  assumes cur: "at_index cps i = Some cur"
    and "cur < fresh h" and "cur \<noteq> obj_position dummy" and "cur \<noteq> obj_scale dummy"
  shows "\<exists>h'. ParticleGroup_step mode t delta dummy cps i p h = Some h'
           \<and> fresh h \<le> fresh h'
           \<and> cells h' cur = lerp3 (cells h cur) (ParticleGroup_goal mode t p h) (delta * 3)
           \<and> (\<forall>a. a < fresh h \<longrightarrow> a \<noteq> cur \<longrightarrow> a \<noteq> obj_position dummy
                  \<longrightarrow> a \<noteq> obj_scale dummy \<longrightarrow> cells h' a = cells h a)"
proof -
  obtain target h1 where tg: "ParticleGroup_target mode t p h = (target, h1)"
    by (cases "ParticleGroup_target mode t p h")
  have f: "cells h1 a = cells h a \<and> fresh h \<le> fresh h1" if "a < fresh h" for a
    using ParticleGroup_target_frame [OF tg that] .
  have g: "ParticleGroup_goal mode t p h = cells h1 target"
    by (simp add: ParticleGroup_goal_def tg)
  show ?thesis
    using cur assms(3,4) f [OF assms(2)] f
    by (simp add: ParticleGroup_step_def tg g v_setScalar_def v_copy_def v_lerp_def)
qed

lemma ParticleGroup_loop_result:
  assumes len: "i + length ds = length cps"
    and dist: "distinct (obj_position dummy # obj_scale dummy # cps)"
    and own: "list_all (\<lambda>a. a < fresh h) (obj_position dummy # obj_scale dummy # cps)"
    and vecs: "list_all (\<lambda>p. treePosition p < fresh h \<and> explodedPosition p < fresh h
                      \<and> treePosition p \<notin> set (obj_position dummy # obj_scale dummy # cps)
                      \<and> explodedPosition p \<notin> set (obj_position dummy # obj_scale dummy # cps))
                 ds"
  shows "\<exists>h'. ParticleGroup_loop mode t delta dummy cps i ds h = Some h'
           \<and> fresh h \<le> fresh h'
           \<and> (\<forall>a. a < fresh h \<longrightarrow> a \<notin> set (obj_position dummy # obj_scale dummy # cps)
                  \<longrightarrow> cells h' a = cells h a)
           \<and> (\<forall>k < length cps. cells h' (cps ! k)
                  = (if i \<le> k
                     then lerp3 (cells h (cps ! k))
                            (ParticleGroup_goal mode t (ds ! (k - i)) h) (delta * 3)
                     else cells h (cps ! k)))"
  using len own vecs
proof (induction ds arbitrary: i h)
  case Nil
  then show ?case by simp
next
  case (Cons p rest)
  let ?D = "obj_position dummy # obj_scale dummy # cps"
  have i: "i < length cps" using Cons.prems(1) by simp
  let ?cur = "cps ! i"
  have cur: "at_index cps i = Some ?cur" using i by (simp add: at_index_def)
  have mem: "?cur \<in> set cps" using i by simp
  have curD: "?cur < fresh h" "?cur \<noteq> obj_position dummy" "?cur \<noteq> obj_scale dummy"
    using mem dist Cons.prems(2) by (auto simp: list_all_iff)
  obtain h1 where
    s: "ParticleGroup_step mode t delta dummy cps i p h = Some h1" and
    fr: "fresh h \<le> fresh h1" and
    lp: "cells h1 ?cur = lerp3 (cells h ?cur) (ParticleGroup_goal mode t p h) (delta * 3)" and
    keep: "\<And>a. a < fresh h \<Longrightarrow> a \<noteq> ?cur \<Longrightarrow> a \<noteq> obj_position dummy
              \<Longrightarrow> a \<noteq> obj_scale dummy \<Longrightarrow> cells h1 a = cells h a"
    using ParticleGroup_step_result [OF cur curD, of mode t delta p] by blast
  have own1: "list_all (\<lambda>a. a < fresh h1) ?D"
    using Cons.prems(2) fr by (auto simp: list_all_iff)
  have vecs1: "list_all (\<lambda>p. treePosition p < fresh h1 \<and> explodedPosition p < fresh h1
                      \<and> treePosition p \<notin> set ?D \<and> explodedPosition p \<notin> set ?D) rest"
    using Cons.prems(3) fr by (auto simp: list_all_iff)
  have len1: "Suc i + length rest = length cps" using Cons.prems(1) by simp
  obtain h' where
    l: "ParticleGroup_loop mode t delta dummy cps (Suc i) rest h1 = Some h'" and
    fr': "fresh h1 \<le> fresh h'" and
    keep': "\<And>a. a < fresh h1 \<Longrightarrow> a \<notin> set ?D \<Longrightarrow> cells h' a = cells h1 a" and
    lp': "\<And>k. k < length cps \<Longrightarrow> cells h' (cps ! k)
                  = (if Suc i \<le> k
                     then lerp3 (cells h1 (cps ! k))
                            (ParticleGroup_goal mode t (rest ! (k - Suc i)) h1) (delta * 3)
                     else cells h1 (cps ! k))"
    using Cons.IH [OF len1 own1 vecs1] by blast
  have loop: "ParticleGroup_loop mode t delta dummy cps i (p # rest) h = Some h'"
    using s l by simp
  have k1: "cells h' a = cells h a" if "a < fresh h" "a \<notin> set ?D" for a
  proof -
    have "a \<noteq> ?cur" using that(2) mem by auto
    then have "cells h1 a = cells h a" using keep that by simp
    moreover have "cells h' a = cells h1 a" using keep' that fr by simp
    ultimately show ?thesis by simp
  qed
  have k2: "cells h' (cps ! k)
              = (if i \<le> k
                 then lerp3 (cells h (cps ! k))
                        (ParticleGroup_goal mode t ((p # rest) ! (k - i)) h) (delta * 3)
                 else cells h (cps ! k))" if k: "k < length cps" for k
  proof -
    have "cps ! k \<in> set cps" using k by simp
    then have kD: "cps ! k < fresh h" "cps ! k \<noteq> obj_position dummy"
      "cps ! k \<noteq> obj_scale dummy"
      using dist Cons.prems(2) by (auto simp: list_all_iff)
    consider "k < i" | "k = i" | "i < k" by linarith
    then show ?thesis
    proof cases
      case 1
      then have "cps ! k \<noteq> ?cur"
        using dist i k by (simp add: nth_eq_iff_index_eq)
      then have "cells h1 (cps ! k) = cells h (cps ! k)" using keep kD by simp
      then show ?thesis using lp' [OF k] 1 by simp
    next
      case 2
      then show ?thesis using lp' [OF k] lp by simp
    next
      case 3
      then have "cps ! k \<noteq> ?cur"
        using dist i k by (simp add: nth_eq_iff_index_eq)
      then have c: "cells h1 (cps ! k) = cells h (cps ! k)" using keep kD by simp
      have r: "k - Suc i < length rest" using 3 k Cons.prems(1) by simp
      let ?q = "rest ! (k - Suc i)"
      have q: "?q \<in> set rest" using r by simp
      then have qv: "treePosition ?q < fresh h" "explodedPosition ?q < fresh h"
        "treePosition ?q \<notin> set ?D" "explodedPosition ?q \<notin> set ?D"
        using Cons.prems(3) by (auto simp: list_all_iff)
      have "treePosition ?q \<noteq> ?cur" "explodedPosition ?q \<noteq> ?cur"
        using qv(3,4) mem by auto
      then have "cells h1 (treePosition ?q) = cells h (treePosition ?q)"
        "cells h1 (explodedPosition ?q) = cells h (explodedPosition ?q)"
        using keep qv by simp_all
      then have g: "ParticleGroup_goal mode t ?q h1 = ParticleGroup_goal mode t ?q h"
        by (intro ParticleGroup_goal_cong) simp_all
      have "(p # rest) ! (k - i) = ?q" using 3 by (simp add: nth_Cons')
      then show ?thesis using lp' [OF k] 3 c g by simp
    qed
  qed
  show ?case
    using loop fr fr' k1 k2 by (intro exI [of _ h']) auto
qed

lemma ParticleGroup_useFrame_result:
  assumes sc: "group_scene dummy cps data h"
  shows "\<exists>h'. ParticleGroup_useFrame True mode t delta dummy cps data h = Some h'
           \<and> group_scene dummy cps data h'
           \<and> list_all (\<lambda>p. cells h' (treePosition p) = cells h (treePosition p)
                    \<and> cells h' (explodedPosition p) = cells h (explodedPosition p)) data
           \<and> (\<forall>k < length data. cells h' (cps ! k)
                  = lerp3 (cells h (cps ! k)) (ParticleGroup_goal mode t (data ! k) h)
                      (delta * 3))"
proof -
  let ?D = "obj_position dummy # obj_scale dummy # cps"
  have len: "0 + length data = length cps"
    and dist: "distinct ?D"
    and own: "list_all (\<lambda>a. a < fresh h) ?D"
    and vecs: "list_all (\<lambda>p. treePosition p < fresh h \<and> explodedPosition p < fresh h
                      \<and> treePosition p \<notin> set ?D \<and> explodedPosition p \<notin> set ?D) data"
    using sc unfolding group_scene_def by simp_all
  obtain h' where
    l: "ParticleGroup_loop mode t delta dummy cps 0 data h = Some h'" and
    fr: "fresh h \<le> fresh h'" and
    keep: "\<And>a. a < fresh h \<Longrightarrow> a \<notin> set ?D \<Longrightarrow> cells h' a = cells h a" and
    lp: "\<And>k. k < length cps \<Longrightarrow> cells h' (cps ! k)
            = (if 0 \<le> k
               then lerp3 (cells h (cps ! k)) (ParticleGroup_goal mode t (data ! (k - 0)) h)
                      (delta * 3)
               else cells h (cps ! k))"
    using ParticleGroup_loop_result [OF len dist own vecs, of mode t delta] by blast
  have u: "ParticleGroup_useFrame True mode t delta dummy cps data h = Some h'"
    using l by (simp add: ParticleGroup_useFrame_def)
  have s': "group_scene dummy cps data h'"
    using sc fr unfolding group_scene_def by (auto simp: list_all_iff)
  have v: "list_all (\<lambda>p. cells h' (treePosition p) = cells h (treePosition p)
                    \<and> cells h' (explodedPosition p) = cells h (explodedPosition p)) data"
    using vecs keep unfolding list_all_iff by blast
  have p: "\<forall>k < length data. cells h' (cps ! k)
                  = lerp3 (cells h (cps ! k)) (ParticleGroup_goal mode t (data ! k) h)
                      (delta * 3)"
    using lp len by simp
  show ?thesis using u s' v p by blast
qed

lemma ParticleGroup_frames_inv:
  assumes sc: "group_scene dummy cps data h"
  shows "\<exists>hn. ParticleGroup_frames mode ts delta dummy cps data h n = Some hn
           \<and> group_scene dummy cps data hn
           \<and> list_all (\<lambda>p. cells hn (treePosition p) = cells h (treePosition p)
                    \<and> cells hn (explodedPosition p) = cells h (explodedPosition p)) data"
proof (induction n)
  case 0
  show ?case using sc by (simp add: list_all_iff)
next
  case (Suc n)
  then obtain hn where
    f: "ParticleGroup_frames mode ts delta dummy cps data h n = Some hn" and
    s: "group_scene dummy cps data hn" and
    v: "list_all (\<lambda>p. cells hn (treePosition p) = cells h (treePosition p)
                    \<and> cells hn (explodedPosition p) = cells h (explodedPosition p)) data"
    by blast
  obtain h' where
    u: "ParticleGroup_useFrame True mode (ts n) delta dummy cps data hn = Some h'" and
    s': "group_scene dummy cps data h'" and
    v': "list_all (\<lambda>p. cells h' (treePosition p) = cells hn (treePosition p)
                    \<and> cells h' (explodedPosition p) = cells hn (explodedPosition p)) data"
    using ParticleGroup_useFrame_result [OF s, of mode "ts n" delta] by blast
  have "list_all (\<lambda>p. cells h' (treePosition p) = cells h (treePosition p)
                    \<and> cells h' (explodedPosition p) = cells h (explodedPosition p)) data"
    using v v' unfolding list_all_iff by simp
  then show ?case using f u s' by simp
qed

lemma ParticleGroup_frames_step:
  assumes sc: "group_scene dummy cps data h" and mode: "mode \<noteq> EXPLODED"
    and k: "k < length data"
  shows "\<exists>hn hn'. ParticleGroup_frames mode ts delta dummy cps data h n = Some hn
           \<and> ParticleGroup_frames mode ts delta dummy cps data h (Suc n) = Some hn'
           \<and> cells hn' (cps ! k)
               = lerp3 (cells hn (cps ! k)) (ParticleGroup_goal mode (ts 0) (data ! k) h)
                   (delta * 3)"
proof -
  obtain hn where
    f: "ParticleGroup_frames mode ts delta dummy cps data h n = Some hn" and
    s: "group_scene dummy cps data hn" and
    v: "list_all (\<lambda>p. cells hn (treePosition p) = cells h (treePosition p)
                    \<and> cells hn (explodedPosition p) = cells h (explodedPosition p)) data"
    using ParticleGroup_frames_inv [OF sc, of mode ts delta n] by blast
  obtain h' where
    u: "ParticleGroup_useFrame True mode (ts n) delta dummy cps data hn = Some h'" and
    p: "\<forall>k < length data. cells h' (cps ! k)
            = lerp3 (cells hn (cps ! k)) (ParticleGroup_goal mode (ts n) (data ! k) hn)
                (delta * 3)"
    using ParticleGroup_useFrame_result [OF s, of mode "ts n" delta] by blast
  have "data ! k \<in> set data" using k by simp
  then have "cells hn (treePosition (data ! k)) = cells h (treePosition (data ! k))"
    "cells hn (explodedPosition (data ! k)) = cells h (explodedPosition (data ! k))"
    using v unfolding list_all_iff by simp_all
  then have "ParticleGroup_goal mode (ts n) (data ! k) hn
             = ParticleGroup_goal mode (ts 0) (data ! k) h"
    using mode by (intro ParticleGroup_goal_cong) simp_all
  then show ?thesis using f u p k by simp
qed

lemma goal_values:
  "mode \<noteq> EXPLODED \<Longrightarrow> SinglePhoto_goal mode t p h
     = (if mode = TREE then (cells h (treePosition p), Vector3 1.5 1.5 1.5)
        else if id_p p mod 5 = 0 then (Vector3 0 0 15, Vector3 6 6 6)
        else (multiplyScalar3 (cells h (explodedPosition p)) 1.5, Vector3 1 1 1))"
  "mode \<noteq> EXPLODED \<Longrightarrow> ParticleGroup_goal mode t p h
     = (if mode = TREE then cells h (treePosition p)
        else multiplyScalar3 (cells h (explodedPosition p)) 1.5)"
  by (cases mode;
      simp add: SinglePhoto_goal_def SinglePhoto_target_def ParticleGroup_goal_def
        ParticleGroup_target_def v_new_def v_clone_def v_multiplyScalar_def Let_def)+

text \<open>
  C2 (as amended). In exact arithmetic, in a mode whose target is fixed (TREE: the stored
  tree position; FOCUS: the stored exploded position times 1.5, or (0, 0, 15) for a
  photo whose id is a multiple of 5) and for a frame time \<open>delta > 0\<close>: when
  \<open>delta * 3 < 1\<close>, the position of a photo's mesh and the current position of every
  particle of a group approach the target as the specification says, with factor
  \<open>min 1 (delta * 3)\<close>; when \<open>delta * 2 < 1\<close>, so does the scale of a photo's mesh toward
  the scale of the mode, with factor \<open>min 1 (delta * 2)\<close>. The frames of a group never
  fail.
\<close>

theorem frames_approach_fixed_target:
  assumes "mode = TREE \<or> mode = FOCUS" and "0 < delta"
  shows "SinglePhoto_goal mode (ts 0) p h
           = (if mode = TREE then (cells h (treePosition p), Vector3 1.5 1.5 1.5)
              else if id_p p mod 5 = 0 then (Vector3 0 0 15, Vector3 6 6 6)
              else (multiplyScalar3 (cells h (explodedPosition p)) 1.5, Vector3 1 1 1))
       \<and> ParticleGroup_goal mode (ts 0) (data ! k) h
           = (if mode = TREE then cells h (treePosition (data ! k))
              else multiplyScalar3 (cells h (explodedPosition (data ! k))) 1.5)
       \<and> (photo_scene mesh p h \<and> delta * 3 < 1 \<longrightarrow>
            approaches_target
              (\<lambda>n. cells (SinglePhoto_frames mesh mode ts delta p h n) (obj_position mesh))
              (fst (SinglePhoto_goal mode (ts 0) p h)) (delta * 3))
       \<and> (photo_scene mesh p h \<and> delta * 2 < 1 \<longrightarrow>
            approaches_target
              (\<lambda>n. cells (SinglePhoto_frames mesh mode ts delta p h n) (obj_scale mesh))
              (snd (SinglePhoto_goal mode (ts 0) p h)) (delta * 2))
       \<and> (group_scene dummy cps data h \<and> k < length data \<and> delta * 3 < 1 \<longrightarrow>
            (\<exists>hs. (\<forall>n. ParticleGroup_frames mode ts delta dummy cps data h n = Some (hs n))
                \<and> approaches_target (\<lambda>n. cells (hs n) (cps ! k))
                     (ParticleGroup_goal mode (ts 0) (data ! k) h) (delta * 3)))"
proof -
  have mode: "mode \<noteq> EXPLODED" using assms(1) by auto
  have d3: "0 < delta * 3" and d2: "0 < delta * 2" using assms(2) by simp_all
  have a: "approaches_target
              (\<lambda>n. cells (SinglePhoto_frames mesh mode ts delta p h n) (obj_position mesh))
              (fst (SinglePhoto_goal mode (ts 0) p h)) (delta * 3)"
    if "photo_scene mesh p h" "delta * 3 < 1"
    using d3 that(2) SinglePhoto_frames_step(1) [OF that(1) mode]
    by (rule approaches_target_lerp3)
  have b: "approaches_target
              (\<lambda>n. cells (SinglePhoto_frames mesh mode ts delta p h n) (obj_scale mesh))
              (snd (SinglePhoto_goal mode (ts 0) p h)) (delta * 2)"
    if "photo_scene mesh p h" "delta * 2 < 1"
    using d2 that(2) SinglePhoto_frames_step(2) [OF that(1) mode]
    by (rule approaches_target_lerp3)
  have c: "\<exists>hs. (\<forall>n. ParticleGroup_frames mode ts delta dummy cps data h n = Some (hs n))
                \<and> approaches_target (\<lambda>n. cells (hs n) (cps ! k))
                     (ParticleGroup_goal mode (ts 0) (data ! k) h) (delta * 3)"
    if sc: "group_scene dummy cps data h" and k: "k < length data" and d: "delta * 3 < 1"
  proof -
    define hs where "hs n = the (ParticleGroup_frames mode ts delta dummy cps data h n)" for n
    have f: "ParticleGroup_frames mode ts delta dummy cps data h n = Some (hs n)" for n
      using ParticleGroup_frames_inv [OF sc, of mode ts delta n] by (auto simp: hs_def)
    have st: "cells (hs (Suc n)) (cps ! k)
               = lerp3 (cells (hs n) (cps ! k)) (ParticleGroup_goal mode (ts 0) (data ! k) h)
                   (delta * 3)" for n
      using ParticleGroup_frames_step [OF sc mode k, of ts delta n] f [of n] f [of "Suc n"]
      by auto
    have "approaches_target (\<lambda>n. cells (hs n) (cps ! k))
                     (ParticleGroup_goal mode (ts 0) (data ! k) h) (delta * 3)"
      using d3 d st by (rule approaches_target_lerp3)
    then show ?thesis using f by blast
  qed
  show ?thesis
    using a b c goal_values [OF mode] by blast
qed

section \<open>Animator: frames in double arithmetic\<close>

text \<open>
  From 0 toward 1 with factor 3/4, the doubles \<open>1 - 4^-n\<close> are reached exactly up to
  \<open>n = 26\<close>; the next step computes \<open>1 - 2^-54\<close>, which rounds to 1.
\<close>

lemma quarter_power: "(4::real) ^ n = 2 ^ (2 * n)"
  by (simp add: power_mult)

lemma fl_quarter_power: "fl (1 / 4 ^ n) = 1 / 4 ^ n"
  using fl_dyadic [of 1 "2 * n"] by (simp add: quarter_power)

lemma fl_three_quarter_power: "fl (1 / 4 ^ n * (3 / 4)) = 3 / 4 ^ Suc n"
proof -
  have e: "1 / 4 ^ n * (3 / 4) = real_of_int 3 / 2 ^ (2 * Suc n)"
    by (simp add: quarter_power)
  have "fl (real_of_int 3 / 2 ^ (2 * Suc n)) = real_of_int 3 / 2 ^ (2 * Suc n)"
    by (rule fl_dyadic) simp
  then have "fl (1 / 4 ^ n * (3 / 4)) = 1 / 4 ^ n * (3 / 4)"
    by (simp only: e)
  also have "1 / 4 ^ n * (3 / 4) = 3 / (4::real) ^ Suc n"
    by simp
  finally show ?thesis .
qed

lemma fl_one_minus_quarter_power:
  assumes "n \<le> 26"
  shows "fl (1 - 1 / 4 ^ n) = 1 - 1 / 4 ^ n"
proof -
  have "(4::int) ^ n \<le> 4 ^ 26" using assms by (intro power_increasing) simp_all
  then have "\<bar>(4::int) ^ n - 1\<bar> < 2 ^ 53" by simp
  from fl_dyadic [OF this, of "2 * n"]
  show ?thesis by (simp add: quarter_power diff_divide_distrib)
qed

lemma lerp3_double_towards_one:
  assumes "n < 26"
  shows "lerp3_double (Vector3 (1 - 1 / 4 ^ n) 0 0) (Vector3 1 0 0) (3 / 4)
         = Vector3 (1 - 1 / 4 ^ Suc n) 0 0"
proof -
  have a: "fl (1 - (1 - 1 / 4 ^ n)) = 1 / 4 ^ n"
    using fl_quarter_power [of n] by simp
  have "1 - 1 / 4 ^ n + 3 / 4 ^ Suc n = 1 - 1 / (4::real) ^ Suc n"
    by (simp add: field_simps)
  then have b: "fl (1 - 1 / 4 ^ n + 3 / 4 ^ Suc n) = 1 - 1 / 4 ^ Suc n"
    using fl_one_minus_quarter_power [of "Suc n"] assms by simp
  show ?thesis
    unfolding lerp3_double_def Vector3.sel a fl_three_quarter_power b
    by (simp add: fl_zero)
qed

lemma lerp3_double_iterate:
  assumes "n \<le> 26"
  shows "((\<lambda>c. lerp3_double c (Vector3 1 0 0) (3 / 4)) ^^ n) (Vector3 0 0 0)
         = Vector3 (1 - 1 / 4 ^ n) 0 0"
  using assms
proof (induction n)
  case 0
  show ?case by simp
next
  case (Suc n)
  then show ?case using lerp3_double_towards_one [of n] by simp
qed

lemma lerp3_double_lands:
  "lerp3_double (Vector3 (1 - 1 / 4 ^ 26) 0 0) (Vector3 1 0 0) (3 / 4) = Vector3 1 0 0"
proof -
  have a: "fl (1 - (1 - 1 / 4 ^ 26)) = 1 / 4 ^ 26"
    using fl_quarter_power [of 26] by simp
  have "1 - 1 / 4 ^ 26 + 3 / 4 ^ Suc 26 = 1 - 1 / (2::real) ^ 54"
    by simp
  then have b: "fl (1 - 1 / 4 ^ 26 + 3 / 4 ^ Suc 26) = 1"
    using fl_tie_one by simp
  show ?thesis
    unfolding lerp3_double_def Vector3.sel a fl_three_quarter_power b
    by (simp add: fl_zero)
qed

lemma lerp3_double_27:
  "((\<lambda>c. lerp3_double c (Vector3 1 0 0) (3 / 4)) ^^ 27) (Vector3 0 0 0) = Vector3 1 0 0"
proof -
  let ?f = "\<lambda>c. lerp3_double c (Vector3 1 0 0) (3 / 4)"
  have "Suc 26 = 27" by simp
  then have "(?f ^^ 27) (Vector3 0 0 0) = ?f ((?f ^^ 26) (Vector3 0 0 0))"
    by (metis funpow.simps(2) o_apply)
  also have "(?f ^^ 26) (Vector3 0 0 0) = Vector3 (1 - 1 / 4 ^ 26) 0 0"
    by (rule lerp3_double_iterate) simp
  also have "?f (Vector3 (1 - 1 / 4 ^ 26) 0 0) = Vector3 1 0 0"
    by (rule lerp3_double_lands)
  finally show ?thesis .
qed

section \<open>Animator: concrete frames\<close>

lemma SinglePhoto_useFrame_double_tree:
  assumes "photo_scene mesh p h"
  shows "photo_scene mesh p (SinglePhoto_useFrame_double msin (Some mesh) TREE t delta p h)"
    and "cells (SinglePhoto_useFrame_double msin (Some mesh) TREE t delta p h) (treePosition p)
           = cells h (treePosition p)"
    and "cells (SinglePhoto_useFrame_double msin (Some mesh) TREE t delta p h) (obj_position mesh)
           = lerp3_double (cells h (obj_position mesh)) (cells h (treePosition p))
               (fl (delta * 3))"
  using assms
  by (auto simp: photo_scene_def SinglePhoto_useFrame_double_def SinglePhoto_target_double_def
      v_lerp_double_def v_new_def Let_def)

lemma SinglePhoto_frames_double_tree:
  assumes "photo_scene mesh p h"
  shows "photo_scene mesh p (SinglePhoto_frames_double msin mesh TREE ts delta p h n)
       \<and> cells (SinglePhoto_frames_double msin mesh TREE ts delta p h n) (treePosition p)
           = cells h (treePosition p)
       \<and> cells (SinglePhoto_frames_double msin mesh TREE ts delta p h n) (obj_position mesh)
           = ((\<lambda>c. lerp3_double c (cells h (treePosition p)) (fl (delta * 3))) ^^ n)
               (cells h (obj_position mesh))"
proof (induction n)
  case 0
  show ?case using assms by simp
next
  case (Suc n)
  then show ?case
    using SinglePhoto_useFrame_double_tree
            [of mesh p "SinglePhoto_frames_double msin mesh TREE ts delta p h n" msin "ts n" delta]
    by simp
qed

lemma example_photo_scene: "photo_scene example_mesh example_photo example_store"
  by (simp add: photo_scene_def example_mesh_def example_photo_def example_store_def)

lemma example_group_photo_scene: "photo_scene example_mesh example_photo example_group_store"
  by (simp add: photo_scene_def example_mesh_def example_photo_def example_store_def
      example_group_store_def)

lemma example_group_scene:
  "group_scene example_dummy [6] [example_ornament] example_group_store"
  by (simp add: group_scene_def example_dummy_def example_ornament_def example_store_def
      example_group_store_def)

text \<open>
  Counterexample to C2 as stated. In exact arithmetic, a photo frame in TREE mode with
  \<open>delta = 1/3\<close> puts the mesh exactly on its target, and with \<open>delta = 1\<close> the factor is
  3, not \<open>min 1 3\<close>: the mesh lands at (3, 0, 0), beyond the target (1, 0, 0) and farther
  from it than the start. A group frame at 60 Hz sets the scale of the dummy to the
  particle's scale at once. And in double arithmetic, with \<open>delta = 1/4\<close> (factor 3/4),
  the mesh of a photo is exactly on its target after 27 frames.
\<close>

theorem animator_reaches_or_passes_target:
  "cells example_store (obj_position example_mesh) = Vector3 0 0 0
   \<and> cells example_store (treePosition example_photo) = Vector3 1 0 0
   \<and> cells (SinglePhoto_useFrame (Some example_mesh) TREE 0 (1 / 3) example_photo example_store)
         (obj_position example_mesh)
       = Vector3 1 0 0
   \<and> cells (SinglePhoto_useFrame (Some example_mesh) TREE 0 1 example_photo example_store)
         (obj_position example_mesh)
       = Vector3 3 0 0
   \<and> distanceTo (Vector3 0 0 0) (Vector3 1 0 0) < distanceTo (Vector3 3 0 0) (Vector3 1 0 0)
   \<and> cells example_group_store (obj_scale example_dummy) = Vector3 1 1 1
   \<and> map_option (\<lambda>h. cells h (obj_scale example_dummy))
        (ParticleGroup_useFrame True TREE 0 (1 / 60) example_dummy [6] [example_ornament]
           example_group_store)
       = Some (Vector3 (1 / 4) (1 / 4) (1 / 4))
   \<and> fl (1 / 4 * 3) = 3 / 4
   \<and> cells (SinglePhoto_frames_double sin example_mesh TREE (\<lambda>n. real n / 4) (1 / 4)
              example_photo example_store 27) (obj_position example_mesh)
       = Vector3 1 0 0"
proof -
  have r: "cells example_store (obj_position example_mesh) = Vector3 0 0 0
     \<and> cells example_store (treePosition example_photo) = Vector3 1 0 0
     \<and> cells (SinglePhoto_useFrame (Some example_mesh) TREE 0 (1 / 3) example_photo example_store)
         (obj_position example_mesh)
       = Vector3 1 0 0
     \<and> cells (SinglePhoto_useFrame (Some example_mesh) TREE 0 1 example_photo example_store)
         (obj_position example_mesh)
       = Vector3 3 0 0
     \<and> distanceTo (Vector3 0 0 0) (Vector3 1 0 0) < distanceTo (Vector3 3 0 0) (Vector3 1 0 0)"
    by (simp add: SinglePhoto_useFrame_def SinglePhoto_target_def example_photo_def
        example_mesh_def example_store_def v_lerp_def v_new_def lerp3_def distanceTo_def)
  have g: "cells example_group_store (obj_scale example_dummy) = Vector3 1 1 1
     \<and> map_option (\<lambda>h. cells h (obj_scale example_dummy))
        (ParticleGroup_useFrame True TREE 0 (1 / 60) example_dummy [6] [example_ornament]
           example_group_store)
       = Some (Vector3 (1 / 4) (1 / 4) (1 / 4))"
    by (simp add: ParticleGroup_useFrame_def ParticleGroup_step_def ParticleGroup_target_def
        at_index_def example_dummy_def example_ornament_def example_store_def
        example_group_store_def v_lerp_def v_copy_def v_setScalar_def)
  have a: "fl (1 / 4 * 3) = 3 / 4"
    using fl_dyadic [of 3 2] by simp
  have "cells (SinglePhoto_frames_double sin example_mesh TREE (\<lambda>n. real n / 4) (1 / 4)
              example_photo example_store 27) (obj_position example_mesh)
        = ((\<lambda>c. lerp3_double c (cells example_store (treePosition example_photo))
                   (fl (1 / 4 * 3))) ^^ 27)
            (cells example_store (obj_position example_mesh))"
    using SinglePhoto_frames_double_tree [OF example_photo_scene] by simp
  also have "\<dots> = ((\<lambda>c. lerp3_double c (Vector3 1 0 0) (3 / 4)) ^^ 27) (Vector3 0 0 0)"
    unfolding a by (simp add: example_photo_def example_mesh_def example_store_def)
  also have "\<dots> = Vector3 1 0 0"
    by (rule lerp3_double_27)
  finally show ?thesis
    using r g a by simp
qed

text \<open>
  Witness for C2 (as amended): the example photo and the example group in TREE mode at
  60 Hz; the mesh, its scale and the ornament start off their targets and never reach
  them.
\<close>

theorem frames_approach_fixed_target_witness:
  "(TREE = TREE \<or> TREE = FOCUS) \<and> (0::real) < 1 / 60 \<and> (1 / 60) * 3 < (1::real)
   \<and> (1 / 60) * 2 < (1::real)
   \<and> photo_scene example_mesh example_photo example_group_store
   \<and> group_scene example_dummy [6] [example_ornament] example_group_store
   \<and> (0::nat) < length [example_ornament]
   \<and> cells example_group_store (obj_position example_mesh) \<noteq> Vector3 1 0 0
   \<and> cells example_group_store (obj_scale example_mesh) \<noteq> Vector3 1.5 1.5 1.5
   \<and> cells example_group_store 6 \<noteq> Vector3 1 0 0
   \<and> approaches_target
        (\<lambda>n. cells (SinglePhoto_frames example_mesh TREE (\<lambda>n. real n / 60) (1 / 60)
                       example_photo example_group_store n) (obj_position example_mesh))
        (Vector3 1 0 0) ((1 / 60) * 3)
   \<and> (\<forall>n. cells (SinglePhoto_frames example_mesh TREE (\<lambda>n. real n / 60) (1 / 60)
                    example_photo example_group_store n) (obj_position example_mesh)
          \<noteq> Vector3 1 0 0)
   \<and> approaches_target
        (\<lambda>n. cells (SinglePhoto_frames example_mesh TREE (\<lambda>n. real n / 60) (1 / 60)
                       example_photo example_group_store n) (obj_scale example_mesh))
        (Vector3 1.5 1.5 1.5) ((1 / 60) * 2)
   \<and> (\<exists>hs. (\<forall>n. ParticleGroup_frames TREE (\<lambda>n. real n / 60) (1 / 60) example_dummy [6]
                     [example_ornament] example_group_store n = Some (hs n))
          \<and> approaches_target (\<lambda>n. cells (hs n) 6) (Vector3 1 0 0) ((1 / 60) * 3)
          \<and> (\<forall>n. cells (hs n) 6 \<noteq> Vector3 1 0 0))"
proof -
  have v: "cells example_group_store (treePosition example_photo) = Vector3 1 0 0"
    "cells example_group_store (treePosition example_ornament) = Vector3 1 0 0"
    "cells example_group_store (obj_position example_mesh) = Vector3 0 0 0"
    "cells example_group_store (obj_scale example_mesh) = Vector3 1 1 1"
    "cells example_group_store 6 = Vector3 0 0 0"
    by (simp_all add: example_group_store_def example_store_def example_photo_def
        example_ornament_def example_mesh_def)
  have d: "(0::real) < 1 / 60" by simp
  note T = frames_approach_fixed_target
    [where mode = TREE and delta = "1 / 60" and ts = "\<lambda>n. real n / 60"
       and p = example_photo and h = example_group_store and mesh = example_mesh
       and dummy = example_dummy and cps = "[6]" and data = "[example_ornament]" and k = 0,
     OF disjI1 [OF refl] d]
  have g1: "SinglePhoto_goal TREE (real 0 / 60) example_photo example_group_store
              = (Vector3 1 0 0, Vector3 1.5 1.5 1.5)"
    using T [THEN conjunct1] by (simp add: v)
  have g2: "ParticleGroup_goal TREE (real 0 / 60) example_ornament example_group_store
              = Vector3 1 0 0"
    using T [THEN conjunct2, THEN conjunct1] by (simp add: v)
  have a1: "approaches_target
        (\<lambda>n. cells (SinglePhoto_frames example_mesh TREE (\<lambda>n. real n / 60) (1 / 60)
                       example_photo example_group_store n) (obj_position example_mesh))
        (Vector3 1 0 0) ((1 / 60) * 3)"
    using T [THEN conjunct2, THEN conjunct2, THEN conjunct1] example_group_photo_scene
    unfolding g1 by simp
  have a2: "approaches_target
        (\<lambda>n. cells (SinglePhoto_frames example_mesh TREE (\<lambda>n. real n / 60) (1 / 60)
                       example_photo example_group_store n) (obj_scale example_mesh))
        (Vector3 1.5 1.5 1.5) ((1 / 60) * 2)"
    using T [THEN conjunct2, THEN conjunct2, THEN conjunct2, THEN conjunct1]
      example_group_photo_scene
    unfolding g1 by simp
  have "\<exists>hs. (\<forall>n. ParticleGroup_frames TREE (\<lambda>n. real n / 60) (1 / 60) example_dummy [6]
                     [example_ornament] example_group_store n = Some (hs n))
          \<and> approaches_target (\<lambda>n. cells (hs n) 6) (Vector3 1 0 0) ((1 / 60) * 3)"
    using T [THEN conjunct2, THEN conjunct2, THEN conjunct2, THEN conjunct2]
      example_group_scene g2
    by simp
  then obtain hs where
    f: "\<forall>n. ParticleGroup_frames TREE (\<lambda>n. real n / 60) (1 / 60) example_dummy [6]
                     [example_ornament] example_group_store n = Some (hs n)" and
    a3: "approaches_target (\<lambda>n. cells (hs n) 6) (Vector3 1 0 0) ((1 / 60) * 3)"
    by blast
  have h0: "hs 0 = example_group_store"
    using f [rule_format, of 0] by simp
  have n1: "\<forall>n. cells (SinglePhoto_frames example_mesh TREE (\<lambda>n. real n / 60) (1 / 60)
                    example_photo example_group_store n) (obj_position example_mesh)
          \<noteq> Vector3 1 0 0"
    using a1 unfolding approaches_target_def by (simp add: v)
  have n3: "\<forall>n. cells (hs n) 6 \<noteq> Vector3 1 0 0"
    using a3 unfolding approaches_target_def by (simp add: h0 v)
  show ?thesis
    using example_group_photo_scene example_group_scene a1 a2 f a3 n1 n3
    by (auto simp: v)
qed

lemma sin_quarter_turns: "sin (6000 * pi + pi / 2) = 1"
proof -
  have "sin (pi / 2 + 2 * pi * of_int 3000)
        = sin (pi / 2) * cos (2 * pi * of_int 3000) + cos (pi / 2) * sin (2 * pi * of_int 3000)"
    by (rule sin_add)
  also have "\<dots> = 1"
    unfolding sin_int_2pin cos_int_2pin by simp
  finally show ?thesis by (simp add: add.commute)
qed

text \<open>
  C3, evaluated on the code. One frame of a photo in EXPLODED mode, at an elapsed time
  where \<open>sin (elapsedTime + id) = 1\<close>, changes the stored exploded position of the particle
  from (25, 0, 0) to (25, 0.5, 0): \<open>target.add\<close> is applied to the particle's own vector.
\<close>

theorem SinglePhoto_useFrame_moves_explodedPosition:
  "0 < 6000 * pi + pi / 2 - 10000
   \<and> cells example_store (explodedPosition example_photo) = Vector3 25 0 0
   \<and> cells (SinglePhoto_useFrame (Some example_mesh) EXPLODED (6000 * pi + pi / 2 - 10000)
              (1 / 60) example_photo example_store) (explodedPosition example_photo)
       = Vector3 25 (1 / 2) 0
   \<and> cells (SinglePhoto_useFrame (Some example_mesh) EXPLODED (6000 * pi + pi / 2 - 10000)
              (1 / 60) example_photo example_store) (explodedPosition example_photo)
       \<noteq> cells example_store (explodedPosition example_photo)"
proof -
  have "12000 \<le> 6000 * pi" using pi_ge_two by simp
  then have p: "0 < 6000 * pi + pi / 2 - 10000" using pi_gt_zero by linarith
  have s: "sin (6000 * pi + pi / 2 - 10000 + 10000) = 1"
    using sin_quarter_turns by simp
  show ?thesis
    using p s
    by (simp add: SinglePhoto_useFrame_def SinglePhoto_target_def example_photo_def
        example_mesh_def example_store_def v_lerp_def v_new_def v_add_def add3_def)
qed

end
